theory Spec2Isabelle
  imports Main "HOL-Library.AList"
begin

section \<open>Python strings\<close>

text \<open>
  A Python \<open>str\<close> is a sequence of Unicode code points. It is modelled by \<open>string\<close>,
  where the character \<open>c\<close> stands for the code point \<open>of_char c\<close>: the model covers
  the strings over the code points 0 to 255 (ASCII and the Latin-1 supplement), and
  \<open>length\<close> counts code points as Python's \<open>len\<close> does. The character classes below
  are those of CPython's Unicode tables on that range.
\<close>

definition nl :: char where
  "nl = CHR 0x0A"

definition dquote :: char where
  "dquote = CHR 0x22"

definition squote :: char where
  "squote = CHR 0x27"

definition code_point :: "char \<Rightarrow> nat" where
  "code_point c = of_char c"

definition in_range :: "nat \<Rightarrow> nat \<Rightarrow> char \<Rightarrow> bool" where
  "in_range lo hi c = (lo \<le> code_point c \<and> code_point c \<le> hi)"

text \<open>\<open>str.isspace\<close> on one character: TAB to CR, FS to SPACE, NEL and NBSP.\<close>

definition isspace :: "char \<Rightarrow> bool" where
  "isspace c = (in_range 0x09 0x0D c \<or> in_range 0x1C 0x20 c
                \<or> code_point c = 0x85 \<or> code_point c = 0xA0)"

text \<open>
  \<open>str.isalnum\<close> on one character: the ASCII digits and letters, and the Latin-1
  letters and numeric characters (for instance \<open>0xE9\<close>, e with acute accent).
\<close>

definition isalnum_char :: "char \<Rightarrow> bool" where
  "isalnum_char c =
     (in_range 0x30 0x39 c \<or> in_range 0x41 0x5A c \<or> in_range 0x61 0x7A c
      \<or> code_point c = 0xAA \<or> in_range 0xB2 0xB3 c \<or> code_point c = 0xB5
      \<or> in_range 0xB9 0xBA c \<or> in_range 0xBC 0xBE c
      \<or> in_range 0xC0 0xD6 c \<or> in_range 0xD8 0xF6 c \<or> in_range 0xF8 0xFF c)"

text \<open>\<open>str.isalnum\<close>: false on the empty string.\<close>

definition isalnum :: "string \<Rightarrow> bool" where
  "isalnum s = (s \<noteq> [] \<and> list_all isalnum_char s)"

definition is_upper_char :: "char \<Rightarrow> bool" where
  "is_upper_char c = (in_range 0x41 0x5A c \<or> in_range 0xC0 0xD6 c \<or> in_range 0xD8 0xDE c)"

definition is_lower_char :: "char \<Rightarrow> bool" where
  "is_lower_char c = (in_range 0x61 0x7A c \<or> in_range 0xE0 0xF6 c \<or> in_range 0xF8 0xFE c)"

definition lower_char :: "char \<Rightarrow> char" where
  "lower_char c = (if is_upper_char c then char_of (code_point c + 32) else c)"

definition lower :: "string \<Rightarrow> string" where
  "lower s = map lower_char s"

text \<open>
  Title-casing of one character. Python maps \<open>0xB5\<close>, \<open>0xDF\<close> and \<open>0xFF\<close> to code
  points above 255; the model leaves these three unchanged (they are cased, so the
  character after them is lower-cased as in Python). No result below depends on them.
\<close>

definition title_char :: "char \<Rightarrow> char" where
  "title_char c = (if is_lower_char c then char_of (code_point c - 32) else c)"

definition is_cased :: "char \<Rightarrow> bool" where
  "is_cased c =
     (in_range 0x41 0x5A c \<or> in_range 0x61 0x7A c \<or> code_point c = 0xAA
      \<or> code_point c = 0xB5 \<or> code_point c = 0xBA
      \<or> in_range 0xC0 0xD6 c \<or> in_range 0xD8 0xF6 c \<or> in_range 0xF8 0xFF c)"

text \<open>
  \<open>str.title\<close>: a character that follows a cased character is lower-cased, any other
  is title-cased. The flag is "the previous character is cased".
\<close>

fun title_from :: "bool \<Rightarrow> string \<Rightarrow> string" where
  "title_from prev [] = []"
| "title_from prev (c # cs) =
     (if prev then lower_char c else title_char c) # title_from (is_cased c) cs"

definition title :: "string \<Rightarrow> string" where
  "title s = title_from False s"

text \<open>\<open>s.startswith(p)\<close>.\<close>

definition startswith :: "string \<Rightarrow> string \<Rightarrow> bool" where
  "startswith s p = (take (length p) s = p)"

text \<open>\<open>sub in s\<close>.\<close>

fun contains :: "string \<Rightarrow> string \<Rightarrow> bool" where
  "contains [] sub = (sub = [])"
| "contains (c # cs) sub = (startswith (c # cs) sub \<or> contains cs sub)"

text \<open>
  The text before and after the first occurrence of \<open>sep\<close> in \<open>s\<close>, if there is one.
  Every separator of the source is a non-empty literal.
\<close>

fun split_first :: "string \<Rightarrow> string \<Rightarrow> (string \<times> string) option" where
  "split_first sep [] = (if sep = [] then Some ([], []) else None)"
| "split_first sep (c # cs) =
     (if startswith (c # cs) sep then Some ([], drop (length sep) (c # cs))
      else case split_first sep cs of
             None \<Rightarrow> None
           | Some (a, b) \<Rightarrow> Some (c # a, b))"

text \<open>\<open>s.split(sep, maxsplit)\<close>: at most \<open>maxsplit\<close> splits, from the left.\<close>

fun py_split :: "string \<Rightarrow> nat \<Rightarrow> string \<Rightarrow> string list" where
  "py_split sep 0 s = [s]"
| "py_split sep (Suc n) s =
     (case split_first sep s of
        None \<Rightarrow> [s]
      | Some (a, b) \<Rightarrow> a # py_split sep n b)"

text \<open>
  \<open>s.split(sep)\<close> without a limit. Each split consumes at least one character of a
  non-empty separator, so \<open>length s\<close> splits are never exceeded.
\<close>

definition split_all :: "string \<Rightarrow> string \<Rightarrow> string list" where
  "split_all sep s = py_split sep (length s) s"

text \<open>\<open>s.strip()\<close> and \<open>s.strip(chars)\<close>: characters are removed from both ends.\<close>

definition strip_with :: "(char \<Rightarrow> bool) \<Rightarrow> string \<Rightarrow> string" where
  "strip_with P s = rev (dropWhile P (rev (dropWhile P s)))"

definition strip :: "string \<Rightarrow> string" where
  "strip s = strip_with isspace s"

definition strip_chars :: "string \<Rightarrow> string \<Rightarrow> string" where
  "strip_chars chars s = strip_with (\<lambda>c. c \<in> set chars) s"

text \<open>\<open>s.replace(old, new)\<close> for a one-character \<open>old\<close>, as in every call of the source.\<close>

definition replace_char :: "char \<Rightarrow> string \<Rightarrow> string \<Rightarrow> string" where
  "replace_char old new s = concat (map (\<lambda>c. if c = old then new else [c]) s)"

text \<open>The decimal numeral of a natural number, as an f-string renders an \<open>int\<close>.\<close>

function str_nat :: "nat \<Rightarrow> string" where
  "str_nat n =
     (if n < 10 then [char_of (48 + n)]
      else str_nat (n div 10) @ [char_of (48 + n mod 10)])"
  by pat_completeness auto
termination
  by (relation "measure id") auto

declare str_nat.simps [simp del]

text \<open>
  \<open>re.match(r"^[a-z][a-z0-9-]*$", s)\<close>: a lower-case ASCII letter, then lower-case ASCII
  letters, digits and hyphens up to the end, where \<open>$\<close> also matches just before one
  final newline.
\<close>

definition name_tail_char :: "char \<Rightarrow> bool" where
  "name_tail_char c = (in_range 0x61 0x7A c \<or> in_range 0x30 0x39 c \<or> c = CHR ''-'')"

definition match_name :: "string \<Rightarrow> bool" where
  "match_name s =
     (case s of
        [] \<Rightarrow> False
      | c # cs \<Rightarrow>
          in_range 0x61 0x7A c
          \<and> (list_all name_tail_char cs
               \<or> (cs \<noteq> [] \<and> last cs = nl \<and> list_all name_tail_char (butlast cs))))"

section \<open>The frontmatter parser\<close>

text \<open>
  The dictionary \<open>frontmatter\<close> is an association list in insertion order: assigning
  to a key that is present replaces its value in place, assigning to a new key appends,
  which is what \<open>AList.update\<close> does.
\<close>

type_synonym dict = "(string \<times> string) list"

text \<open>
  The body of the loop over the lines of the block. \<open>line.split(":", 1)\<close> has two
  parts whenever \<open>":" in line\<close>, so the unpacking never fails; the model keeps the
  dictionary in the other case.
\<close>

definition frontmatter_line :: "string \<Rightarrow> dict \<Rightarrow> dict" where
  "frontmatter_line line frontmatter =
     (if contains line '':'' then
        (case py_split '':'' 1 line of
           [key, val] \<Rightarrow>
             AList.update (strip key) (strip_chars [dquote, squote] (strip val)) frontmatter
         | _ \<Rightarrow> frontmatter)
      else frontmatter)"

definition parse_block :: "string \<Rightarrow> dict" where
  "parse_block block = fold frontmatter_line (split_all [nl] (strip block)) []"

definition parse_frontmatter :: "string \<Rightarrow> dict \<times> string" where
  "parse_frontmatter content =
     (if \<not> startswith content ''---'' then ([], content)
      else
        (let parts = py_split ''---'' 2 content in
         if length parts < 3 then ([], content)
         else (parse_block (parts ! 1), parts ! 2)))"

section \<open>The file system\<close>

text \<open>
  The file system is a tree of files and directories; a directory lists its entries
  by name, in the order of their creation. A file is a text file, \<open>File s\<close> with the
  text \<open>s\<close> that \<open>read_text\<close> gives, or a file whose bytes do not decode as text,
  \<open>Binary\<close>. A path is the list of the components of an absolute path, \<open>[]\<close> being
  the root. Symbolic links and permissions are outside the model.
\<close>

datatype node = File string | Binary | Dir "(string \<times> node) list"

type_synonym path = "string list"

fun lookup :: "node \<Rightarrow> path \<Rightarrow> node option" where
  "lookup n [] = Some n"
| "lookup (File s) (c # cs) = None"
| "lookup Binary (c # cs) = None"
| "lookup (Dir es) (c # cs) =
     (case map_of es c of
        None \<Rightarrow> None
      | Some n \<Rightarrow> lookup n cs)"

text \<open>\<open>Path.exists\<close>, \<open>Path.is_dir\<close>, \<open>Path.is_file\<close>.\<close>

definition exists :: "node \<Rightarrow> path \<Rightarrow> bool" where
  "exists fs p = (lookup fs p \<noteq> None)"

definition is_dir :: "node \<Rightarrow> path \<Rightarrow> bool" where
  "is_dir fs p = (case lookup fs p of Some (Dir es) \<Rightarrow> True | _ \<Rightarrow> False)"

definition is_file :: "node \<Rightarrow> path \<Rightarrow> bool" where
  "is_file fs p =
     (case lookup fs p of Some (File s) \<Rightarrow> True | Some Binary \<Rightarrow> True | _ \<Rightarrow> False)"

text \<open>
  The exceptions: the two that \<open>create_skill\<close> raises itself carry their message, those
  of the operating system are known by their error number, and \<open>UnicodeDecodeError\<close> is
  what reading a file that is not text raises.
\<close>

datatype errno = EEXIST | ENOTDIR | EISDIR | ENOENT

datatype py_error =
  ValueError string | FileExistsError string | OSError errno | UnicodeDecodeError

text \<open>\<open>str(path)\<close>.\<close>

definition path_str :: "path \<Rightarrow> string" where
  "path_str p = (if p = [] then ''/'' else concat (map (\<lambda>c. CHR ''/'' # c) p))"

text \<open>
  \<open>path.mkdir(parents=True, exist_ok=True)\<close>: every missing directory along the path is
  created; a directory that is there is kept; a file in the way is an error, found
  before anything is created.
\<close>

fun mkdir_parents :: "node \<Rightarrow> path \<Rightarrow> py_error + node" where
  "mkdir_parents (Dir es) [] = Inr (Dir es)"
| "mkdir_parents (File s) [] = Inl (OSError EEXIST)"
| "mkdir_parents Binary [] = Inl (OSError EEXIST)"
| "mkdir_parents (File s) (c # cs) = Inl (OSError ENOTDIR)"
| "mkdir_parents Binary (c # cs) = Inl (OSError ENOTDIR)"
| "mkdir_parents (Dir es) (c # cs) =
     (case mkdir_parents (case map_of es c of None \<Rightarrow> Dir [] | Some n \<Rightarrow> n) cs of
        Inl e \<Rightarrow> Inl e
      | Inr n \<Rightarrow> Inr (Dir (AList.update c n es)))"

text \<open>
  \<open>path.write_text(s)\<close>: the parent must be a directory; a file at the path is
  replaced, a directory there is an error.
\<close>

fun write_text :: "node \<Rightarrow> path \<Rightarrow> string \<Rightarrow> py_error + node" where
  "write_text (File old) [] s = Inr (File s)"
| "write_text Binary [] s = Inr (File s)"
| "write_text (Dir es) [] s = Inl (OSError EISDIR)"
| "write_text (File old) (c # cs) s = Inl (OSError ENOTDIR)"
| "write_text Binary (c # cs) s = Inl (OSError ENOTDIR)"
| "write_text (Dir es) (c # cs) s =
     (case map_of es c of
        None \<Rightarrow>
          (if cs = [] then Inr (Dir (AList.update c (File s) es)) else Inl (OSError ENOENT))
      | Some n \<Rightarrow>
          (case write_text n cs s of
             Inl e \<Rightarrow> Inl e
           | Inr n' \<Rightarrow> Inr (Dir (AList.update c n' es))))"

text \<open>\<open>path.read_text()\<close>: it raises on a directory and on a file that is not text.\<close>

definition read_text :: "node \<Rightarrow> path \<Rightarrow> py_error + string" where
  "read_text fs p =
     (case lookup fs p of
        None \<Rightarrow> Inl (OSError ENOENT)
      | Some (Dir es) \<Rightarrow> Inl (OSError EISDIR)
      | Some Binary \<Rightarrow> Inl UnicodeDecodeError
      | Some (File s) \<Rightarrow> Inr s)"

text \<open>
  \<open>list(path.glob("*"))\<close>: the paths of the direct entries, hidden ones included, each
  name once.
\<close>

definition glob_star :: "node \<Rightarrow> path \<Rightarrow> path list" where
  "glob_star fs p =
     (case lookup fs p of
        Some (Dir es) \<Rightarrow> map (\<lambda>name. p @ [name]) (remdups (map fst es))
      | _ \<Rightarrow> [])"

text \<open>A loop whose body may raise: the first exception ends it.\<close>

fun for_each :: "('a \<Rightarrow> 's \<Rightarrow> py_error + 's) \<Rightarrow> 'a list \<Rightarrow> 's \<Rightarrow> py_error + 's" where
  "for_each body [] s = Inr s"
| "for_each body (x # xs) s =
     (case body x s of
        Inl e \<Rightarrow> Inl e
      | Inr s' \<Rightarrow> for_each body xs s')"

section \<open>validate\_skill\<close>

text \<open>
  The function is one sequence of checks, each appending to \<open>errors\<close>. The model has
  one definition for each commented block of the source, threading \<open>errors\<close>.
\<close>

definition description_too_short :: "nat \<Rightarrow> string" where
  \<open>description_too_short n =
     ''Description too short ('' @ str_nat n @ '' chars). Should be at least 50 characters.''\<close>

definition check_required_fields :: "dict \<Rightarrow> string list \<Rightarrow> string list" where
  \<open>check_required_fields frontmatter errors =
     (let errors =
        (case map_of frontmatter ''name'' of
           None \<Rightarrow>
             errors @ [''Missing required field '' @ [squote] @ ''name'' @ [squote]
                       @ '' in frontmatter'']
         | Some name \<Rightarrow>
             if \<not> match_name name then
               errors @ [''Invalid name format: '' @ name
                         @ ''. Use lowercase letters, numbers, and hyphens.'']
             else errors)
      in
        (case map_of frontmatter ''description'' of
           None \<Rightarrow>
             errors @ [''Missing required field '' @ [squote] @ ''description'' @ [squote]
                       @ '' in frontmatter'']
         | Some desc \<Rightarrow>
             (let errors =
                (if length desc < 50 then
                   errors @ [description_too_short (length desc)]
                 else errors);
                  errors =
                (if contains desc ''TODO'' then
                   errors @ [''Description contains TODO placeholder'']
                 else errors);
                  errors =
                (if \<not> list_ex (\<lambda>trigger. contains (lower desc) trigger)
                          [''when'', ''use'', ''should'', ''for''] then
                   errors @ [''Description should explain when to use this skill'']
                 else errors)
              in errors)))\<close>

definition check_body_content :: "string \<Rightarrow> string list \<Rightarrow> string list" where
  \<open>check_body_content body errors =
     (let errors =
        (if length (strip body) < 100 then
           errors @ [''SKILL.md body is too short. Add detailed instructions.'']
         else errors);
          errors =
        (if contains body ''TODO'' then
           errors @ [''SKILL.md body contains TODO placeholders'']
         else errors)
      in errors)\<close>

definition recommended_sections :: "string list" where
  \<open>recommended_sections = [''When to Use'', ''Workflow'', ''Example'']\<close>

definition missing_section :: "string \<Rightarrow> string" where
  \<open>missing_section section_name =
     ''Missing recommended section: '' @ [squote] @ section_name @ [squote]\<close>

definition check_recommended_sections :: "string \<Rightarrow> string list \<Rightarrow> string list" where
  \<open>check_recommended_sections body errors =
     fold (\<lambda>section_name errors.
             if \<not> contains (lower body) (lower section_name) then
               errors @ [missing_section section_name]
             else errors)
          recommended_sections errors\<close>

definition placeholder_error :: "string \<Rightarrow> string \<Rightarrow> string" where
  \<open>placeholder_error subdir name =
     ''File '' @ subdir @ ''/'' @ name @ '' contains TODO placeholders''\<close>

definition check_file :: "node \<Rightarrow> string \<Rightarrow> path \<Rightarrow> string list \<Rightarrow> py_error + string list" where
  \<open>check_file fs subdir f errors =
     (if last f \<noteq> ''.gitkeep'' \<and> is_file fs f then
        (case read_text fs f of
           Inl e \<Rightarrow> Inl e
         | Inr file_content \<Rightarrow>
             if contains file_content ''TODO'' then
               Inr (errors @ [placeholder_error subdir (last f)])
             else Inr errors)
      else Inr errors)\<close>

definition check_subdir :: "node \<Rightarrow> path \<Rightarrow> string \<Rightarrow> string list \<Rightarrow> py_error + string list" where
  \<open>check_subdir fs skill_path subdir errors =
     (let subpath = skill_path @ [subdir] in
      if exists fs subpath \<and> is_dir fs subpath then
        for_each (check_file fs subdir) (glob_star fs subpath) errors
      else Inr errors)\<close>

definition check_directory_structure :: "node \<Rightarrow> path \<Rightarrow> string list \<Rightarrow> py_error + string list" where
  \<open>check_directory_structure fs skill_path errors =
     for_each (check_subdir fs skill_path) [''scripts'', ''references'', ''assets''] errors\<close>

definition validate_skill :: "node \<Rightarrow> path \<Rightarrow> py_error + string list" where
  \<open>validate_skill fs skill_path =
     (let errors = [];
          skill_md = skill_path @ [''SKILL.md'']
      in
        if \<not> exists fs skill_md then Inr (errors @ [''SKILL.md file not found''])
        else
          (case read_text fs skill_md of
             Inl e \<Rightarrow> Inl e
           | Inr content \<Rightarrow>
               (case parse_frontmatter content of
                  (frontmatter, body) \<Rightarrow>
                    (let errors = check_required_fields frontmatter errors;
                         errors = check_body_content body errors;
                         errors = check_recommended_sections body errors
                     in check_directory_structure fs skill_path errors))))\<close>

section \<open>create\_skill\<close>

text \<open>
  A template is a function of the values that \<open>str.format\<close> substitutes. Every line of
  the three templates ends with a newline.
\<close>

definition unlines :: "string list \<Rightarrow> string" where
  "unlines ls = concat (map (\<lambda>l. l @ [nl]) ls)"

definition SKILL_MD_TEMPLATE :: "string \<Rightarrow> string \<Rightarrow> string" where
  \<open>SKILL_MD_TEMPLATE skill_name skill_title = unlines
     [''---'',
      ''name: '' @ skill_name,
      ''description: TODO - Add a description of when this skill should be used. Be specific about trigger conditions.'',
      ''---'',
      [],
      ''# '' @ skill_title,
      [],
      ''## Overview'',
      [],
      ''TODO - Describe the purpose and capabilities of this skill.'',
      [],
      ''## When to Use This Skill'',
      [],
      ''- TODO - Trigger condition 1'',
      ''- TODO - Trigger condition 2'',
      ''- TODO - Trigger condition 3'',
      [],
      ''## Workflow'',
      [],
      ''### Step 1: [Action]'',
      [],
      ''TODO - Instructions for Claude'',
      [],
      ''### Step 2: [Action]'',
      [],
      ''TODO - Instructions for Claude'',
      [],
      ''## Examples'',
      [],
      ''**User Request**: "TODO - Example prompt"'',
      [],
      ''**Expected Output**:'',
      ''```'',
      ''TODO - Show expected output'',
      ''```'',
      [],
      ''## Error Handling'',
      [],
      ''- If [error condition], then [action]'',
      [],
      ''## References'',
      [],
      ''- Load `references/example.md` for additional context (delete if not needed)'']\<close>

definition REFERENCE_TEMPLATE :: string where
  \<open>REFERENCE_TEMPLATE = unlines
     [''# Reference Documentation'',
      [],
      ''TODO - Add reference documentation that Claude should load as needed.'',
      [],
      ''This file should contain:'',
      ''- Detailed specifications'',
      ''- API documentation'',
      ''- Schema definitions'',
      ''- Extended examples'',
      [],
      ''Keep this separate from SKILL.md to avoid loading unnecessary context.'']\<close>

definition SCRIPT_TEMPLATE :: "string \<Rightarrow> string" where
  \<open>SCRIPT_TEMPLATE script_name = unlines
     [''#!/usr/bin/env python3'',
      [dquote, dquote, dquote],
      ''TODO - Description of what this script does.'',
      [],
      ''Usage:'',
      ''    python '' @ script_name @ ''.py <args>'',
      [dquote, dquote, dquote],
      [],
      ''import argparse'',
      [],
      [],
      ''def main():'',
      ''    parser = argparse.ArgumentParser(description="TODO - Script description")'',
      ''    parser.add_argument("input", help="TODO - Input description")'',
      ''    args = parser.parse_args()'',
      [],
      ''    # TODO - Implement script logic'',
      ''    print(f"Processing: {args.input}")'',
      [],
      [],
      ''if __name__ == "__main__":'',
      ''    main()'']\<close>

text \<open>
  A sequence of file system operations: the first one that raises ends the sequence,
  and what the earlier ones did stays (there is no rollback). The result is the
  exception, if any, and the file system left behind.
\<close>

fun run_steps :: "(node \<Rightarrow> py_error + node) list \<Rightarrow> node \<Rightarrow> py_error option \<times> node" where
  "run_steps [] fs = (None, fs)"
| "run_steps (step # steps) fs =
     (case step fs of
        Inl e \<Rightarrow> (Some e, fs)
      | Inr fs' \<Rightarrow> run_steps steps fs')"

text \<open>The check of the name, and the two messages.\<close>

definition valid_skill_name :: "string \<Rightarrow> bool" where
  "valid_skill_name skill_name =
     isalnum (replace_char (CHR ''_'') [] (replace_char (CHR ''-'') [] skill_name))"

definition invalid_name_error :: "string \<Rightarrow> py_error" where
  \<open>invalid_name_error skill_name =
     ValueError (''Invalid skill name: '' @ skill_name
                 @ ''. Use only letters, numbers, and hyphens.'')\<close>

definition already_exists_error :: "path \<Rightarrow> py_error" where
  \<open>already_exists_error skill_path =
     FileExistsError (''Skill directory already exists: '' @ path_str skill_path)\<close>

text \<open>
  \<open>create_skill\<close> takes the file system, the name and the output directory (a path
  already); it gives the exception raised, if any, and the file system afterwards.
  \<open>Path(output_path) / skill_name\<close> is evaluated only for a name that passed the check,
  which is then one path component. What the function prints is not modelled.
\<close>

definition create_skill :: "node \<Rightarrow> string \<Rightarrow> path \<Rightarrow> py_error option \<times> node" where
  \<open>create_skill fs skill_name output_path =
     (if \<not> valid_skill_name skill_name then (Some (invalid_name_error skill_name), fs)
      else
        (let skill_path = output_path @ [skill_name] in
         if exists fs skill_path then (Some (already_exists_error skill_path), fs)
         else
           (let skill_title =
                  title (replace_char (CHR ''_'') '' ''
                           (replace_char (CHR ''-'') '' '' skill_name));
                skill_md_content = SKILL_MD_TEMPLATE skill_name skill_title;
                script_content = SCRIPT_TEMPLATE ''example''
            in run_steps
                 [\<lambda>fs. mkdir_parents fs (skill_path @ [''scripts'']),
                  \<lambda>fs. mkdir_parents fs (skill_path @ [''references'']),
                  \<lambda>fs. mkdir_parents fs (skill_path @ [''assets'']),
                  \<lambda>fs. write_text fs (skill_path @ [''SKILL.md'']) skill_md_content,
                  \<lambda>fs. write_text fs (skill_path @ [''references'', ''example.md''])
                          REFERENCE_TEMPLATE,
                  \<lambda>fs. write_text fs (skill_path @ [''scripts'', ''example.py''])
                          script_content,
                  \<lambda>fs. write_text fs (skill_path @ [''assets'', ''.gitkeep'']) []]
                 fs)))\<close>

section \<open>Notions used in the statements\<close>

text \<open>
  The scan of the three subdirectories reads every file that is not named
  \<open>.gitkeep\<close>; it raises when one of them is not text. \<open>scan_reads_text\<close> says that
  none is, and the three \<open>findings\<close> are what the scan then appends to \<open>errors\<close>, file
  by file.
\<close>

definition reads_text :: "node \<Rightarrow> path \<Rightarrow> bool" where
  \<open>reads_text fs f = (last f = ''.gitkeep'' \<or> lookup fs f \<noteq> Some Binary)\<close>

definition subdir_reads_text :: "node \<Rightarrow> path \<Rightarrow> string \<Rightarrow> bool" where
  "subdir_reads_text fs skill_path subdir =
     (if is_dir fs (skill_path @ [subdir])
      then list_all (reads_text fs) (glob_star fs (skill_path @ [subdir]))
      else True)"

definition scan_reads_text :: "node \<Rightarrow> path \<Rightarrow> bool" where
  "scan_reads_text fs skill_path =
     list_all (subdir_reads_text fs skill_path) [''scripts'', ''references'', ''assets'']"

definition file_findings :: "node \<Rightarrow> string \<Rightarrow> path \<Rightarrow> string list" where
  \<open>file_findings fs subdir f =
     (case lookup fs f of
        Some (File file_content) \<Rightarrow>
          if last f \<noteq> ''.gitkeep'' \<and> contains file_content ''TODO''
          then [placeholder_error subdir (last f)] else []
      | _ \<Rightarrow> [])\<close>

definition subdir_findings :: "node \<Rightarrow> path \<Rightarrow> string \<Rightarrow> string list" where
  "subdir_findings fs skill_path subdir =
     (if is_dir fs (skill_path @ [subdir])
      then concat (map (file_findings fs subdir) (glob_star fs (skill_path @ [subdir])))
      else [])"

definition directory_findings :: "node \<Rightarrow> path \<Rightarrow> string list" where
  "directory_findings fs skill_path =
     concat (map (subdir_findings fs skill_path) [''scripts'', ''references'', ''assets''])"

text \<open>
  The rules 2 to 5 of the specification as a table: each rule with its own condition
  and its message, in the order of the source. \<open>fired\<close> keeps the messages of the rules
  whose condition holds.
\<close>

definition fired :: "(bool \<times> string) list \<Rightarrow> string list" where
  "fired rules = map snd (filter fst rules)"

definition name_rules :: "dict \<Rightarrow> (bool \<times> string) list" where
  \<open>name_rules frontmatter =
     (case map_of frontmatter ''name'' of
        None \<Rightarrow>
          [(True, ''Missing required field '' @ [squote] @ ''name'' @ [squote]
                  @ '' in frontmatter'')]
      | Some name \<Rightarrow>
          [(\<not> match_name name,
            ''Invalid name format: '' @ name
            @ ''. Use lowercase letters, numbers, and hyphens.'')])\<close>

definition description_rules :: "dict \<Rightarrow> (bool \<times> string) list" where
  \<open>description_rules frontmatter =
     (case map_of frontmatter ''description'' of
        None \<Rightarrow>
          [(True, ''Missing required field '' @ [squote] @ ''description'' @ [squote]
                  @ '' in frontmatter'')]
      | Some desc \<Rightarrow>
          [(length desc < 50, description_too_short (length desc)),
           (contains desc ''TODO'', ''Description contains TODO placeholder''),
           (\<not> (contains (lower desc) ''when'' \<or> contains (lower desc) ''use''
               \<or> contains (lower desc) ''should'' \<or> contains (lower desc) ''for''),
            ''Description should explain when to use this skill'')])\<close>

definition body_rules :: "string \<Rightarrow> (bool \<times> string) list" where
  \<open>body_rules body =
     [(length (strip body) < 100, ''SKILL.md body is too short. Add detailed instructions.''),
      (contains body ''TODO'', ''SKILL.md body contains TODO placeholders'')]\<close>

definition section_rules :: "string \<Rightarrow> (bool \<times> string) list" where
  \<open>section_rules body =
     [(\<not> contains (lower body) ''when to use'', missing_section ''When to Use''),
      (\<not> contains (lower body) ''workflow'', missing_section ''Workflow''),
      (\<not> contains (lower body) ''example'', missing_section ''Example'')]\<close>

definition rule_table :: "dict \<Rightarrow> string \<Rightarrow> (bool \<times> string) list" where
  "rule_table frontmatter body =
     name_rules frontmatter @ description_rules frontmatter
     @ body_rules body @ section_rules body"

text \<open>The three subdirectories that are scanned.\<close>

definition scanned_subdirs :: "string set" where
  "scanned_subdirs = {''scripts'', ''references'', ''assets''}"

text \<open>
  The directory that a successful \<open>create_skill\<close> leaves at the skill path, entries in
  the order of their creation.
\<close>

definition skill_tree :: "string \<Rightarrow> node" where
  \<open>skill_tree skill_name =
     Dir [(''scripts'', Dir [(''example.py'', File (SCRIPT_TEMPLATE ''example''))]),
          (''references'', Dir [(''example.md'', File REFERENCE_TEMPLATE)]),
          (''assets'', Dir [(''.gitkeep'', File [])]),
          (''SKILL.md'',
           File (SKILL_MD_TEMPLATE skill_name
                   (title (replace_char (CHR ''_'') '' ''
                             (replace_char (CHR ''-'') '' '' skill_name)))))]\<close>

text \<open>
  The character class \<open>[A-Za-z0-9_-]\<close> of the specification's statement about names.
\<close>

definition in_name_class :: "char \<Rightarrow> bool" where
  "in_name_class c =
     (in_range 0x41 0x5A c \<or> in_range 0x61 0x7A c \<or> in_range 0x30 0x39 c
      \<or> c = CHR ''_'' \<or> c = CHR ''-'')"

text \<open>
  The quote handling as the specification words it: one matching pair of quotes
  around the value is removed, anything else is kept.
\<close>

definition is_quote :: "char \<Rightarrow> bool" where
  "is_quote c = (c = dquote \<or> c = squote)"

definition strip_one_matching_layer :: "string \<Rightarrow> string" where
  "strip_one_matching_layer v =
     (if 2 \<le> length v \<and> is_quote (hd v) \<and> last v = hd v then butlast (tl v) else v)"

text \<open>
  The serialisation of the specification's round trip: a delimiter line, one
  \<open>key: value\<close> line for each entry, a delimiter line.
\<close>

definition entry_line :: "string \<times> string \<Rightarrow> string" where
  "entry_line kv = fst kv @ '': '' @ snd kv"

definition serialize :: "dict \<Rightarrow> string" where
  "serialize d = unlines ([''---''] @ map entry_line d @ [''---''])"

text \<open>
  The two parts of the manifest that \<open>SKILL_MD_TEMPLATE\<close> produces: what stands between
  its two delimiters, and what follows the second one, the lines of the body.
\<close>

definition manifest_block :: "string \<Rightarrow> string" where
  \<open>manifest_block skill_name =
     [nl] @ unlines
      [''name: '' @ skill_name,
       ''description: TODO - Add a description of when this skill should be used. Be specific about trigger conditions.'']\<close>

definition manifest_body_lines :: "string \<Rightarrow> string list" where
  \<open>manifest_body_lines skill_title =
     [Nil,
      ''# '' @ skill_title,
      [],
      ''## Overview'',
      [],
      ''TODO - Describe the purpose and capabilities of this skill.'',
      [],
      ''## When to Use This Skill'',
      [],
      ''- TODO - Trigger condition 1'',
      ''- TODO - Trigger condition 2'',
      ''- TODO - Trigger condition 3'',
      [],
      ''## Workflow'',
      [],
      ''### Step 1: [Action]'',
      [],
      ''TODO - Instructions for Claude'',
      [],
      ''### Step 2: [Action]'',
      [],
      ''TODO - Instructions for Claude'',
      [],
      ''## Examples'',
      [],
      ''**User Request**: "TODO - Example prompt"'',
      [],
      ''**Expected Output**:'',
      ''```'',
      ''TODO - Show expected output'',
      ''```'',
      [],
      ''## Error Handling'',
      [],
      ''- If [error condition], then [action]'',
      [],
      ''## References'',
      [],
      ''- Load `references/example.md` for additional context (delete if not needed)'']\<close>

definition manifest_body :: "string \<Rightarrow> string" where
  "manifest_body skill_title = [nl] @ unlines (manifest_body_lines skill_title)"

text \<open>
  The round trip of the specification holds for the mappings that the line format can
  carry. A key is plain when it has no white space at its ends, no separator, no
  newline and no \<open>---\<close> in it; a value is plain when it has no white space and no quote
  at its ends, no newline and no \<open>---\<close> in it. A mapping, as an association list with
  one entry for each key, is plain when its keys and values are.
\<close>

definition plain_key :: "string \<Rightarrow> bool" where
  "plain_key k = (strip k = k \<and> CHR '':'' \<notin> set k \<and> nl \<notin> set k \<and> \<not> contains k ''---'')"

definition plain_value :: "string \<Rightarrow> bool" where
  "plain_value v =
     (strip v = v \<and> strip_chars [dquote, squote] v = v \<and> nl \<notin> set v
      \<and> \<not> contains v ''---'')"

definition plain_dict :: "dict \<Rightarrow> bool" where
  "plain_dict d =
     (distinct (map fst d) \<and> list_all (\<lambda>kv. plain_key (fst kv) \<and> plain_value (snd kv)) d)"

text \<open>
  A text has an embedded delimiter line when one of its lines is \<open>---\<close>: the only
  thing the specification's statement of the round trip excludes.
\<close>

definition has_delimiter_line :: "string \<Rightarrow> bool" where
  "has_delimiter_line s = (''---'' \<in> set (split_all [nl] s))"

section \<open>Strings, the parser and the validator: basic facts\<close>

lemma startswith_Nil [simp]: "startswith s []"
  by (simp add: startswith_def)

lemma startswith_Cons:
  "startswith (c # cs) (d # ds) = (c = d \<and> startswith cs ds)"
  by (auto simp: startswith_def)

lemma startswith_Nil_left: "startswith [] p = (p = [])"
  by (auto simp: startswith_def)

lemma startswith_single: "startswith s [c] = (s \<noteq> [] \<and> hd s = c)"
  by (cases s) (auto simp: startswith_def)

lemma contains_single: "contains s [c] = (c \<in> set s)"
  by (induction s) (auto simp: startswith_single)

lemma split_first_single:
  "split_first [c] s =
     (if c \<in> set s then Some (takeWhile (\<lambda>x. x \<noteq> c) s, tl (dropWhile (\<lambda>x. x \<noteq> c) s)) else None)"
  by (induction s) (auto simp: startswith_single)

lemma py_split_one_single:
  "c \<in> set s \<Longrightarrow>
   py_split [c] (Suc 0) s = [takeWhile (\<lambda>x. x \<noteq> c) s, tl (dropWhile (\<lambda>x. x \<noteq> c) s)]"
  by (simp add: split_first_single)

lemma startswith_append: "startswith (p @ s) p"
  by (simp add: startswith_def)

lemma startswith_iff: "startswith s p = (\<exists>r. s = p @ r)"
  unfolding startswith_def
  by (metis append_eq_conv_conj append_take_drop_id)

lemma contains_iff: "contains s sub = (\<exists>a b. s = a @ sub @ b)"
proof (induction s)
  case Nil
  then show ?case by auto
next
  case (Cons c cs)
  show ?case
  proof
    assume "contains (c # cs) sub"
    then consider "startswith (c # cs) sub" | "contains cs sub" by auto
    then show "\<exists>a b. c # cs = a @ sub @ b"
    proof cases
      case 1
      then obtain r where "c # cs = sub @ r" by (auto simp: startswith_iff)
      then have "c # cs = [] @ sub @ r" by simp
      then show ?thesis by blast
    next
      case 2
      then obtain a b where "cs = a @ sub @ b" using Cons.IH by blast
      then have "c # cs = (c # a) @ sub @ b" by simp
      then show ?thesis by blast
    qed
  next
    assume "\<exists>a b. c # cs = a @ sub @ b"
    then obtain a b where ab: "c # cs = a @ sub @ b" by blast
    show "contains (c # cs) sub"
    proof (cases a)
      case Nil
      then have "startswith (c # cs) sub" using ab unfolding startswith_iff by auto
      then show ?thesis by simp
    next
      case (Cons x xs)
      then have "cs = xs @ sub @ b" using ab by simp
      then show ?thesis using Cons.IH by auto
    qed
  qed
qed

lemma split_first_Some_append:
  "split_first sep s = Some (a, b) \<Longrightarrow> s = a @ sep @ b"
proof (induction s arbitrary: a)
  case Nil
  then show ?case by (auto split: if_splits)
next
  case (Cons c cs)
  show ?case
  proof (cases "startswith (c # cs) sep")
    case True
    then show ?thesis using Cons.prems
      by (auto simp: startswith_def) (metis append_take_drop_id)
  next
    case False
    then show ?thesis using Cons
      by (auto split: option.splits)
  qed
qed

lemma split_first_None_iff: "split_first sep s = None \<longleftrightarrow> \<not> contains s sep"
  by (induction s) (auto split: option.splits)

lemma split_first_first:
  assumes "\<not> contains (a @ butlast sep) sep" and "sep \<noteq> []"
  shows "split_first sep (a @ sep @ b) = Some (a, b)"
  using assms(1)
proof (induction a)
  case Nil
  then show ?case using assms(2) by (cases sep) (auto simp: startswith_def)
next
  case (Cons c cs)
  have len: "length sep \<le> length (c # cs @ butlast sep)" by simp
  have "\<not> startswith (c # cs @ butlast sep) sep" using Cons.prems by simp
  moreover have "take (length sep) ((c # cs) @ sep @ b) = take (length sep) (c # cs @ butlast sep)"
  proof -
    have "(c # cs) @ sep @ b = (c # cs @ butlast sep) @ (last sep # b)"
      using assms(2) by simp
    then show ?thesis using len by (metis (no_types, lifting) append_Nil2 diff_is_0_eq' take_0 take_append)
  qed
  ultimately have ns: "\<not> startswith ((c # cs) @ sep @ b) sep"
    by (simp add: startswith_def)
  have "\<not> contains (cs @ butlast sep) sep" using Cons.prems by simp
  then have "split_first sep (cs @ sep @ b) = Some (cs, b)" using Cons.IH by blast
  then show ?case using ns by simp
qed


lemma py_split_colon:
  "contains line '':'' \<Longrightarrow>
   py_split '':'' 1 line =
     [takeWhile (\<lambda>c. c \<noteq> CHR '':'') line, tl (dropWhile (\<lambda>c. c \<noteq> CHR '':'') line)]"
  by (simp add: contains_single split_first_single)

lemma frontmatter_line_eq:
  "contains line '':'' \<Longrightarrow>
   frontmatter_line line fm =
     AList.update (strip (takeWhile (\<lambda>c. c \<noteq> CHR '':'') line))
       (strip_chars [dquote, squote] (strip (tl (dropWhile (\<lambda>c. c \<noteq> CHR '':'') line)))) fm"
  by (simp add: frontmatter_line_def contains_single split_first_single)

lemma py_split_two_delimiters:
  assumes "\<not> contains (block @ ''--'') ''---''"
  shows "py_split ''---'' 2 (''---'' @ block @ ''---'' @ body) = ['''', block, body]"
proof -
  have first: "split_first ''---'' (''---'' @ block @ ''---'' @ body)
                 = Some ([], block @ ''---'' @ body)"
    by (simp add: startswith_def)
  have "\<not> contains (block @ butlast ''---'') ''---''" using assms by simp
  then have second: "split_first ''---'' (block @ ''---'' @ body) = Some (block, body)"
    by (rule split_first_first) simp
  have "py_split ''---'' (Suc (Suc 0)) (''---'' @ block @ ''---'' @ body) = ['''', block, body]"
    using first second by simp
  then show ?thesis by (simp add: numeral_2_eq_2)
qed

lemma parse_frontmatter_delimited:
  assumes "content = ''---'' @ block @ ''---'' @ body"
    and "\<not> contains (block @ ''--'') ''---''"
  shows "parse_frontmatter content = (parse_block block, body)"
proof -
  have "startswith content ''---''" using assms(1) by (simp add: startswith_def)
  moreover have "py_split ''---'' 2 content = ['''', block, body]"
    unfolding assms(1) by (rule py_split_two_delimiters [OF assms(2)])
  ultimately show ?thesis by (simp add: parse_frontmatter_def)
qed

lemma strip_with_decompose:
  "\<exists>pre post. s = pre @ strip_with P s @ post
      \<and> (\<forall>c \<in> set pre. P c) \<and> (\<forall>c \<in> set post. P c)"
proof -
  let ?t = "dropWhile P s"
  have 1: "s = takeWhile P s @ ?t" by simp
  have "rev (dropWhile P (rev ?t)) @ rev (takeWhile P (rev ?t))
          = rev (takeWhile P (rev ?t) @ dropWhile P (rev ?t))"
    by (simp only: rev_append)
  also have "\<dots> = ?t"
    by (simp only: takeWhile_dropWhile_id rev_rev_ident)
  finally have 2: "?t = strip_with P s @ rev (takeWhile P (rev ?t))"
    by (simp add: strip_with_def)
  have 3: "\<forall>c \<in> set (takeWhile P s). P c" by (auto dest: set_takeWhileD)
  have 4: "\<forall>c \<in> set (rev (takeWhile P (rev ?t))). P c" by (auto dest: set_takeWhileD)
  have "s = takeWhile P s @ strip_with P s @ rev (takeWhile P (rev ?t))"
    using 1 2 by metis
  then show ?thesis using 3 4 by blast
qed

lemma strip_with_ends:
  assumes "strip_with P s \<noteq> []"
  shows "\<not> P (hd (strip_with P s)) \<and> \<not> P (last (strip_with P s))"
proof -
  let ?t = "dropWhile P s"
  let ?u = "dropWhile P (rev ?t)"
  have u: "?u \<noteq> []" using assms by (simp add: strip_with_def)
  then have hu: "\<not> P (hd ?u)" by (rule hd_dropWhile)
  have "last (strip_with P s) = hd ?u" using u by (simp add: strip_with_def last_rev)
  then have a: "\<not> P (last (strip_with P s))" using hu by simp
  have t: "?t \<noteq> []"
  proof
    assume e: "?t = []"
    have "?u = dropWhile P (rev [])" by (simp only: e)
    then show False using u by (simp only: rev.simps dropWhile.simps)
  qed
  then have ht: "\<not> P (hd ?t)" by (rule hd_dropWhile)
  have "rev ?u @ rev (takeWhile P (rev ?t)) = rev (takeWhile P (rev ?t) @ ?u)"
    by (simp only: rev_append)
  also have "\<dots> = ?t"
    by (simp only: takeWhile_dropWhile_id rev_rev_ident)
  finally have "hd ?t = hd (rev ?u)" using u by (metis hd_append2 rev_is_Nil_conv)
  then have "\<not> P (hd (strip_with P s))" using ht by (simp add: strip_with_def)
  then show ?thesis using a by simp
qed


lemma check_required_fields_append:
  "check_required_fields fm errors = errors @ check_required_fields fm []"
  by (simp add: check_required_fields_def Let_def split: option.splits)

lemma check_body_content_append:
  "check_body_content body errors = errors @ check_body_content body []"
  by (simp add: check_body_content_def Let_def)

lemma check_recommended_sections_append:
  "check_recommended_sections body errors = errors @ check_recommended_sections body []"
  by (simp add: check_recommended_sections_def recommended_sections_def)

lemma check_file_eq:
  "check_file fs subdir f errors =
     (if reads_text fs f then Inr (errors @ file_findings fs subdir f)
      else Inl UnicodeDecodeError)"
  by (auto simp: check_file_def file_findings_def reads_text_def is_file_def read_text_def
           split: option.splits node.splits)

lemma for_each_check_file:
  "for_each (check_file fs subdir) files errors =
     (if list_all (reads_text fs) files
      then Inr (errors @ concat (map (file_findings fs subdir) files))
      else Inl UnicodeDecodeError)"
  by (induction files arbitrary: errors) (simp_all add: check_file_eq)

lemma check_subdir_eq:
  "check_subdir fs skill_path subdir errors =
     (if subdir_reads_text fs skill_path subdir
      then Inr (errors @ subdir_findings fs skill_path subdir)
      else Inl UnicodeDecodeError)"
  by (auto simp: check_subdir_def subdir_findings_def subdir_reads_text_def
                 for_each_check_file exists_def is_dir_def
           split: option.splits node.splits)

lemma check_directory_structure_eq:
  "check_directory_structure fs skill_path errors =
     (if scan_reads_text fs skill_path
      then Inr (errors @ directory_findings fs skill_path)
      else Inl UnicodeDecodeError)"
  by (simp add: check_directory_structure_def directory_findings_def scan_reads_text_def
        check_subdir_eq)

lemma validate_skill_on_file:
  assumes "lookup fs (skill_path @ [''SKILL.md'']) = Some (File content)"
    and "parse_frontmatter content = (fm, body)"
  shows "validate_skill fs skill_path =
           (if scan_reads_text fs skill_path
            then Inr (check_required_fields fm [] @ check_body_content body []
                      @ check_recommended_sections body []
                      @ directory_findings fs skill_path)
            else Inl UnicodeDecodeError)"
proof -
  have "validate_skill fs skill_path =
          check_directory_structure fs skill_path
            (check_recommended_sections body
               (check_body_content body (check_required_fields fm [])))"
    using assms by (simp add: validate_skill_def exists_def read_text_def)
  moreover have "check_recommended_sections body
               (check_body_content body (check_required_fields fm []))
             = check_required_fields fm [] @ check_body_content body []
               @ check_recommended_sections body []"
    by (metis append.assoc check_body_content_append check_recommended_sections_append)
  ultimately show ?thesis by (simp add: check_directory_structure_eq)
qed

lemma validate_skill_returns:
  assumes "lookup fs (skill_path @ [''SKILL.md'']) = Some (File content)"
    and "parse_frontmatter content = (fm, body)"
    and "validate_skill fs skill_path = Inr errors"
  shows "errors = check_required_fields fm [] @ check_body_content body []
                  @ check_recommended_sections body [] @ directory_findings fs skill_path"
  using assms(3) unfolding validate_skill_on_file [OF assms(1,2)]
  by (simp split: if_splits)

lemma validate_skill_missing:
  "lookup fs (skill_path @ [''SKILL.md'']) = None \<Longrightarrow>
   validate_skill fs skill_path = Inr [''SKILL.md file not found'']"
  by (simp add: validate_skill_def exists_def)

lemma validate_skill_directory:
  "lookup fs (skill_path @ [''SKILL.md'']) = Some (Dir es) \<Longrightarrow>
   validate_skill fs skill_path = Inl (OSError EISDIR)"
  by (simp add: validate_skill_def exists_def read_text_def)

lemma validate_skill_binary:
  "lookup fs (skill_path @ [''SKILL.md'']) = Some Binary \<Longrightarrow>
   validate_skill fs skill_path = Inl UnicodeDecodeError"
  by (simp add: validate_skill_def exists_def read_text_def)

lemma required_fields_fired:
  "check_required_fields fm [] = fired (name_rules fm @ description_rules fm)"
  by (simp add: check_required_fields_def name_rules_def description_rules_def fired_def Let_def
           split: option.splits)

lemma body_content_fired: "check_body_content body [] = fired (body_rules body)"
  by (simp add: check_body_content_def body_rules_def fired_def Let_def)

lemma lower_section_names:
  "lower ''When to Use'' = ''when to use''"
  "lower ''Workflow'' = ''workflow''"
  "lower ''Example'' = ''example''"
  by code_simp+

lemma recommended_sections_fired:
  "check_recommended_sections body [] = fired (section_rules body)"
  by (simp add: check_recommended_sections_def recommended_sections_def section_rules_def
        fired_def lower_section_names)

lemma checks_fired:
  "check_required_fields fm [] @ check_body_content body []
   @ check_recommended_sections body [] = fired (rule_table fm body)"
  by (simp add: required_fields_fired body_content_fired recommended_sections_fired
        rule_table_def fired_def)

section \<open>The messages of the checks\<close>

lemma hd_description_too_short: "hd (description_too_short n) = CHR ''D''"
  by (simp add: description_too_short_def)

lemma hd_placeholder_error: "hd (placeholder_error subdir name) = CHR ''F''"
  by (simp add: placeholder_error_def)

lemma required_fields_errors_hd:
  "e \<in> set (check_required_fields fm []) \<Longrightarrow>
   hd e = CHR ''M'' \<or> hd e = CHR ''I'' \<or> hd e = CHR ''D''"
  by (auto simp: check_required_fields_def Let_def description_too_short_def
           split: option.splits if_splits)

lemma body_content_errors_hd:
  "e \<in> set (check_body_content body []) \<Longrightarrow> hd e = CHR ''S''"
  by (auto simp: check_body_content_def Let_def split: if_splits)

lemma recommended_sections_errors_hd:
  "e \<in> set (check_recommended_sections body []) \<Longrightarrow> hd e = CHR ''M''"
  by (auto simp: check_recommended_sections_def recommended_sections_def missing_section_def
           split: if_splits)

lemma file_findings_shape:
  "e \<in> set (file_findings fs subdir f) \<Longrightarrow>
   \<exists>name. name \<noteq> ''.gitkeep'' \<and> e = placeholder_error subdir name"
  by (auto simp: file_findings_def split: option.splits node.splits if_splits)

lemma directory_findings_shape:
  "e \<in> set (directory_findings fs skill_path) \<Longrightarrow>
   \<exists>subdir name. subdir \<in> scanned_subdirs \<and> name \<noteq> ''.gitkeep''
      \<and> e = placeholder_error subdir name"
  by (auto simp: directory_findings_def subdir_findings_def scanned_subdirs_def
           split: if_splits dest!: file_findings_shape)

lemma directory_findings_hd:
  "e \<in> set (directory_findings fs skill_path) \<Longrightarrow> hd e = CHR ''F''"
  by (auto dest!: directory_findings_shape simp: hd_placeholder_error)

lemma placeholder_error_inject:
  assumes "subdir \<in> scanned_subdirs" "subdir' \<in> scanned_subdirs"
    and "placeholder_error subdir name = placeholder_error subdir' name'"
  shows "name = name'"
proof -
  have "subdir @ ''/'' @ name = subdir' @ ''/'' @ name'"
    using assms(3) by (simp add: placeholder_error_def)
  then show ?thesis
    using assms(1,2) by (auto simp: scanned_subdirs_def)
qed


lemma not_found_is_no_placeholder_error:
  "placeholder_error subdir name \<noteq> ''SKILL.md file not found''"
  by (simp add: placeholder_error_def)


lemma too_short_49:
  "map_of fm ''description'' = Some desc \<Longrightarrow> length desc = 49 \<Longrightarrow>
   ''Description too short (49 chars). Should be at least 50 characters.''
     \<in> set (check_required_fields fm [])"
proof -
  assume a: "map_of fm ''description'' = Some desc" "length desc = 49"
  have "str_nat 49 = ''49''" by code_simp
  then have "description_too_short 49
      = ''Description too short (49 chars). Should be at least 50 characters.''"
    by (simp add: description_too_short_def)
  moreover have "description_too_short 49 \<in> set (check_required_fields fm [])"
    using a by (simp add: check_required_fields_def Let_def)
  ultimately show ?thesis by simp
qed

lemma not_too_short_50:
  "map_of fm ''description'' = Some desc \<Longrightarrow> length desc = 50 \<Longrightarrow>
   description_too_short n \<notin> set (check_required_fields fm [])"
  by (auto simp: check_required_fields_def Let_def description_too_short_def
           split: option.splits)



section \<open>The file system and create\_skill: basic facts\<close>

lemma lookup_append:
  "lookup fs (p @ q) = (case lookup fs p of None \<Rightarrow> None | Some n \<Rightarrow> lookup n q)"
proof (induction p arbitrary: fs)
  case Nil
  then show ?case by simp
next
  case (Cons c cs)
  then show ?case by (cases fs) (auto split: option.splits)
qed

lemma mkdir_focus:
  "lookup fs p = Some n \<Longrightarrow> mkdir_parents fs (p @ q) = Inr fs' \<Longrightarrow>
   \<exists>n'. mkdir_parents n q = Inr n' \<and> lookup fs' p = Some n'"
proof (induction p arbitrary: fs fs')
  case Nil
  then show ?case by simp
next
  case (Cons c cs)
  then obtain es where fs: "fs = Dir es" by (cases fs) auto
  then obtain m where m: "map_of es c = Some m" "lookup m cs = Some n"
    using Cons.prems(1) by (auto split: option.splits)
  then obtain m' where m': "mkdir_parents m (cs @ q) = Inr m'" "fs' = Dir (AList.update c m' es)"
    using Cons.prems(2) fs by (auto split: sum.splits)
  obtain n' where "mkdir_parents n q = Inr n'" "lookup m' cs = Some n'"
    using Cons.IH [OF m(2) m'(1)] by blast
  then show ?case using m'(2) by (auto simp: update_conv')
qed

lemma lookup_empty_dir: "cs \<noteq> [] \<Longrightarrow> lookup (Dir []) cs = None"
  by (cases cs) auto

lemma mkdir_fresh:
  "lookup fs p = None \<Longrightarrow> mkdir_parents fs (p @ q) = Inr fs' \<Longrightarrow>
   \<exists>n'. mkdir_parents (Dir []) q = Inr n' \<and> lookup fs' p = Some n'"
proof (induction p arbitrary: fs fs')
  case Nil
  then show ?case by simp
next
  case (Cons c cs)
  then obtain es where fs: "fs = Dir es" by (cases fs) auto
  let ?m = "case map_of es c of None \<Rightarrow> Dir [] | Some n \<Rightarrow> n"
  obtain m' where m': "mkdir_parents ?m (cs @ q) = Inr m'" "fs' = Dir (AList.update c m' es)"
    using Cons.prems(2) fs by (auto split: sum.splits)
  show ?case
  proof (cases "cs = [] \<and> map_of es c = None")
    case True
    then show ?thesis using m' by (auto simp: update_conv')
  next
    case False
    have "lookup ?m cs = None"
      using False Cons.prems(1) fs by (auto split: option.splits simp: lookup_empty_dir)
    then obtain n' where "mkdir_parents (Dir []) q = Inr n'" "lookup m' cs = Some n'"
      using Cons.IH [OF _ m'(1)] by blast
    then show ?thesis using m'(2) by (auto simp: update_conv')
  qed
qed

lemma write_focus:
  "lookup fs p = Some n \<Longrightarrow> write_text fs (p @ q) s = Inr fs' \<Longrightarrow>
   \<exists>n'. write_text n q s = Inr n' \<and> lookup fs' p = Some n'"
proof (induction p arbitrary: fs fs')
  case Nil
  then show ?case by simp
next
  case (Cons c cs)
  then obtain es where fs: "fs = Dir es" by (cases fs) auto
  then obtain m where m: "map_of es c = Some m" "lookup m cs = Some n"
    using Cons.prems(1) by (auto split: option.splits)
  then obtain m' where m': "write_text m (cs @ q) s = Inr m'" "fs' = Dir (AList.update c m' es)"
    using Cons.prems(2) fs by (auto split: sum.splits)
  obtain n' where "write_text n q s = Inr n'" "lookup m' cs = Some n'"
    using Cons.IH [OF m(2) m'(1)] by blast
  then show ?case using m'(2) by (auto simp: update_conv')
qed

lemma run_steps_Cons_None:
  "run_steps (step # steps) fs = (None, fs') \<Longrightarrow>
   \<exists>fs1. step fs = Inr fs1 \<and> run_steps steps fs1 = (None, fs')"
  by (cases "step fs") auto

lemma create_skill_returns:
  assumes "create_skill fs skill_name output_path = (None, fs')"
  shows "valid_skill_name skill_name
       \<and> lookup fs (output_path @ [skill_name]) = None
       \<and> lookup fs' (output_path @ [skill_name]) = Some (skill_tree skill_name)"
proof -
  let ?sp = "output_path @ [skill_name]"
  let ?md = "SKILL_MD_TEMPLATE skill_name
               (title (replace_char (CHR ''_'') '' '' (replace_char (CHR ''-'') '' '' skill_name)))"
  have valid: "valid_skill_name skill_name"
    using assms by (auto simp: create_skill_def split: if_splits)
  have fresh: "lookup fs ?sp = None"
    using assms valid by (auto simp: create_skill_def exists_def Let_def split: if_splits)
  have run: "run_steps
       [\<lambda>fs. mkdir_parents fs (?sp @ [''scripts'']),
        \<lambda>fs. mkdir_parents fs (?sp @ [''references'']),
        \<lambda>fs. mkdir_parents fs (?sp @ [''assets'']),
        \<lambda>fs. write_text fs (?sp @ [''SKILL.md'']) ?md,
        \<lambda>fs. write_text fs (?sp @ [''references'', ''example.md'']) REFERENCE_TEMPLATE,
        \<lambda>fs. write_text fs (?sp @ [''scripts'', ''example.py'']) (SCRIPT_TEMPLATE ''example''),
        \<lambda>fs. write_text fs (?sp @ [''assets'', ''.gitkeep'']) []] fs = (None, fs')"
    using assms valid fresh by (simp add: create_skill_def exists_def Let_def)
  obtain fs1 where s1: "mkdir_parents fs (?sp @ [''scripts'']) = Inr fs1"
    and r1: "run_steps
       [\<lambda>fs. mkdir_parents fs (?sp @ [''references'']),
        \<lambda>fs. mkdir_parents fs (?sp @ [''assets'']),
        \<lambda>fs. write_text fs (?sp @ [''SKILL.md'']) ?md,
        \<lambda>fs. write_text fs (?sp @ [''references'', ''example.md'']) REFERENCE_TEMPLATE,
        \<lambda>fs. write_text fs (?sp @ [''scripts'', ''example.py'']) (SCRIPT_TEMPLATE ''example''),
        \<lambda>fs. write_text fs (?sp @ [''assets'', ''.gitkeep'']) []] fs1 = (None, fs')"
    using run_steps_Cons_None [OF run] by blast
  obtain fs2 where s2: "mkdir_parents fs1 (?sp @ [''references'']) = Inr fs2"
    and r2: "run_steps
       [\<lambda>fs. mkdir_parents fs (?sp @ [''assets'']),
        \<lambda>fs. write_text fs (?sp @ [''SKILL.md'']) ?md,
        \<lambda>fs. write_text fs (?sp @ [''references'', ''example.md'']) REFERENCE_TEMPLATE,
        \<lambda>fs. write_text fs (?sp @ [''scripts'', ''example.py'']) (SCRIPT_TEMPLATE ''example''),
        \<lambda>fs. write_text fs (?sp @ [''assets'', ''.gitkeep'']) []] fs2 = (None, fs')"
    using run_steps_Cons_None [OF r1] by blast
  obtain fs3 where s3: "mkdir_parents fs2 (?sp @ [''assets'']) = Inr fs3"
    and r3: "run_steps
       [\<lambda>fs. write_text fs (?sp @ [''SKILL.md'']) ?md,
        \<lambda>fs. write_text fs (?sp @ [''references'', ''example.md'']) REFERENCE_TEMPLATE,
        \<lambda>fs. write_text fs (?sp @ [''scripts'', ''example.py'']) (SCRIPT_TEMPLATE ''example''),
        \<lambda>fs. write_text fs (?sp @ [''assets'', ''.gitkeep'']) []] fs3 = (None, fs')"
    using run_steps_Cons_None [OF r2] by blast
  obtain fs4 where s4: "write_text fs3 (?sp @ [''SKILL.md'']) ?md = Inr fs4"
    and r4: "run_steps
       [\<lambda>fs. write_text fs (?sp @ [''references'', ''example.md'']) REFERENCE_TEMPLATE,
        \<lambda>fs. write_text fs (?sp @ [''scripts'', ''example.py'']) (SCRIPT_TEMPLATE ''example''),
        \<lambda>fs. write_text fs (?sp @ [''assets'', ''.gitkeep'']) []] fs4 = (None, fs')"
    using run_steps_Cons_None [OF r3] by blast
  obtain fs5 where s5: "write_text fs4 (?sp @ [''references'', ''example.md'']) REFERENCE_TEMPLATE = Inr fs5"
    and r5: "run_steps
       [\<lambda>fs. write_text fs (?sp @ [''scripts'', ''example.py'']) (SCRIPT_TEMPLATE ''example''),
        \<lambda>fs. write_text fs (?sp @ [''assets'', ''.gitkeep'']) []] fs5 = (None, fs')"
    using run_steps_Cons_None [OF r4] by blast
  obtain fs6 where s6: "write_text fs5 (?sp @ [''scripts'', ''example.py'']) (SCRIPT_TEMPLATE ''example'') = Inr fs6"
    and r6: "run_steps [\<lambda>fs. write_text fs (?sp @ [''assets'', ''.gitkeep'']) []] fs6 = (None, fs')"
    using run_steps_Cons_None [OF r5] by blast
  obtain fs7 where s7: "write_text fs6 (?sp @ [''assets'', ''.gitkeep'']) [] = Inr fs7"
    and r7: "run_steps [] fs7 = (None, fs')"
    using run_steps_Cons_None [OF r6] by blast
  have fs7: "fs7 = fs'" using r7 by simp
  have l1: "lookup fs1 ?sp = Some (Dir [(''scripts'', Dir [])])"
    using mkdir_fresh [OF fresh s1] by simp
  have l2: "lookup fs2 ?sp = Some (Dir [(''scripts'', Dir []), (''references'', Dir [])])"
    using mkdir_focus [OF l1 s2] by simp
  have l3: "lookup fs3 ?sp =
      Some (Dir [(''scripts'', Dir []), (''references'', Dir []), (''assets'', Dir [])])"
    using mkdir_focus [OF l2 s3] by simp
  have l4: "lookup fs4 ?sp =
      Some (Dir [(''scripts'', Dir []), (''references'', Dir []), (''assets'', Dir []),
                 (''SKILL.md'', File ?md)])"
    using write_focus [OF l3 s4] by simp
  have l5: "lookup fs5 ?sp =
      Some (Dir [(''scripts'', Dir []),
                 (''references'', Dir [(''example.md'', File REFERENCE_TEMPLATE)]),
                 (''assets'', Dir []), (''SKILL.md'', File ?md)])"
    using write_focus [OF l4 s5] by simp
  have l6: "lookup fs6 ?sp =
      Some (Dir [(''scripts'', Dir [(''example.py'', File (SCRIPT_TEMPLATE ''example''))]),
                 (''references'', Dir [(''example.md'', File REFERENCE_TEMPLATE)]),
                 (''assets'', Dir []), (''SKILL.md'', File ?md)])"
    using write_focus [OF l5 s6] by simp
  have l7: "lookup fs7 ?sp =
      Some (Dir [(''scripts'', Dir [(''example.py'', File (SCRIPT_TEMPLATE ''example''))]),
                 (''references'', Dir [(''example.md'', File REFERENCE_TEMPLATE)]),
                 (''assets'', Dir [(''.gitkeep'', File [])]), (''SKILL.md'', File ?md)])"
    using write_focus [OF l6 s7] by simp
  show ?thesis using valid fresh l7 fs7 by (simp add: skill_tree_def)
qed

lemma set_replace_char_Nil: "set (replace_char old [] s) = set s - {old}"
  by (induction s) (auto simp: replace_char_def)

lemma invalid_name_refused:
  "\<not> valid_skill_name skill_name \<Longrightarrow>
   create_skill fs skill_name output_path = (Some (invalid_name_error skill_name), fs)"
  by (simp add: create_skill_def)

lemma existing_target_refused:
  "valid_skill_name skill_name \<Longrightarrow> exists fs (output_path @ [skill_name]) \<Longrightarrow>
   create_skill fs skill_name output_path
     = (Some (already_exists_error (output_path @ [skill_name])), fs)"
  by (simp add: create_skill_def)

lemma not_alnum_not_valid:
  assumes "c \<in> set skill_name" "\<not> isalnum_char c" "c \<noteq> CHR ''-''" "c \<noteq> CHR ''_''"
  shows "\<not> valid_skill_name skill_name"
proof -
  have "c \<in> set (replace_char (CHR ''_'') [] (replace_char (CHR ''-'') [] skill_name))"
    using assms by (simp add: set_replace_char_Nil)
  then show ?thesis using assms(2)
    by (auto simp: valid_skill_name_def isalnum_def list_all_iff)
qed

lemma ascii_outside_class_not_alnum:
  "code_point c < 128 \<Longrightarrow> \<not> in_name_class c \<Longrightarrow> \<not> isalnum_char c"
  by (auto simp: in_name_class_def isalnum_char_def in_range_def)

lemma outside_class_not_separator:
  "\<not> in_name_class c \<Longrightarrow> c \<noteq> CHR ''-'' \<and> c \<noteq> CHR ''_''"
  by (auto simp: in_name_class_def)

lemma lookup_focus: "lookup fs p = Some n \<Longrightarrow> lookup fs (p @ q) = lookup n q"
  by (simp add: lookup_append)

lemma is_dir_focus: "lookup fs p = Some n \<Longrightarrow> is_dir fs (p @ q) = is_dir n q"
  by (simp add: is_dir_def lookup_focus)

lemma glob_star_focus:
  "lookup fs p = Some n \<Longrightarrow> glob_star fs (p @ q) = map (\<lambda>f. p @ f) (glob_star n q)"
  by (simp add: glob_star_def lookup_focus split: option.splits node.splits)

lemma glob_star_nonempty: "f \<in> set (glob_star fs q) \<Longrightarrow> f \<noteq> []"
  by (auto simp: glob_star_def split: option.splits node.splits)

lemma file_findings_focus:
  "lookup fs p = Some n \<Longrightarrow> f \<noteq> [] \<Longrightarrow>
   file_findings fs subdir (p @ f) = file_findings n subdir f"
  by (simp add: file_findings_def lookup_focus last_append split: option.splits node.splits)

lemma subdir_findings_focus:
  assumes "lookup fs p = Some n"
  shows "subdir_findings fs p subdir = subdir_findings n [] subdir"
proof -
  have "map (file_findings fs subdir) (glob_star fs (p @ [subdir]))
        = map (file_findings n subdir) (glob_star n [subdir])"
    using assms
    by (auto simp: glob_star_focus file_findings_focus dest: glob_star_nonempty)
  then show ?thesis
    using is_dir_focus [OF assms, of "[subdir]"] by (simp add: subdir_findings_def)
qed

lemma directory_findings_focus:
  assumes "lookup fs p = Some n"
  shows "directory_findings fs p = directory_findings n []"
  unfolding directory_findings_def
  by (simp only: subdir_findings_focus [OF assms] list.map)

lemma reads_text_focus:
  "lookup fs p = Some n \<Longrightarrow> f \<noteq> [] \<Longrightarrow> reads_text fs (p @ f) = reads_text n f"
  by (simp add: reads_text_def lookup_focus last_append)

lemma subdir_reads_text_focus:
  assumes "lookup fs p = Some n"
  shows "subdir_reads_text fs p subdir = subdir_reads_text n [] subdir"
proof -
  have "reads_text fs (p @ f) = reads_text n f" if "f \<in> set (glob_star n [subdir])" for f
    using that assms glob_star_nonempty reads_text_focus by blast
  then have "list_all (reads_text fs) (glob_star fs (p @ [subdir]))
        = list_all (reads_text n) (glob_star n [subdir])"
    using assms by (simp add: glob_star_focus list_all_iff)
  then show ?thesis
    using is_dir_focus [OF assms, of "[subdir]"] by (simp add: subdir_reads_text_def)
qed

lemma scan_reads_text_focus:
  assumes "lookup fs p = Some n"
  shows "scan_reads_text fs p = scan_reads_text n []"
  unfolding scan_reads_text_def
  by (simp only: subdir_reads_text_focus [OF assms] list.pred_inject)

lemma validate_skill_focus:
  assumes "lookup fs p = Some n"
  shows "validate_skill fs p = validate_skill n []"
proof -
  have l: "lookup fs (p @ [''SKILL.md'']) = lookup n ([] @ [''SKILL.md''])"
    using assms by (simp add: lookup_focus)
  show ?thesis
  proof (cases "lookup n ([] @ [''SKILL.md''])")
    case None
    have "lookup fs (p @ [''SKILL.md'']) = None" using l None by (simp only:)
    then have "validate_skill fs p = Inr [''SKILL.md file not found'']"
      by (rule validate_skill_missing)
    moreover have "validate_skill n [] = Inr [''SKILL.md file not found'']"
      using None by (rule validate_skill_missing)
    ultimately show ?thesis by (simp only:)
  next
    case (Some m)
    show ?thesis
    proof (cases m)
      case (Dir es)
      have b: "lookup n ([] @ [''SKILL.md'']) = Some (Dir es)" using Some Dir by (simp only:)
      have a: "lookup fs (p @ [''SKILL.md'']) = Some (Dir es)" using l b by (simp only:)
      have "validate_skill fs p = Inl (OSError EISDIR)"
        using a by (rule validate_skill_directory)
      moreover have "validate_skill n [] = Inl (OSError EISDIR)"
        using b by (rule validate_skill_directory)
      ultimately show ?thesis by (simp only:)
    next
      case Binary
      have b: "lookup n ([] @ [''SKILL.md'']) = Some Binary" using Some Binary by (simp only:)
      have a: "lookup fs (p @ [''SKILL.md'']) = Some Binary" using l b by (simp only:)
      have "validate_skill fs p = Inl UnicodeDecodeError"
        using a by (rule validate_skill_binary)
      moreover have "validate_skill n [] = Inl UnicodeDecodeError"
        using b by (rule validate_skill_binary)
      ultimately show ?thesis by (simp only:)
    next
      case (File content)
      obtain fm body where pf: "parse_frontmatter content = (fm, body)"
        by (cases "parse_frontmatter content")
      have b: "lookup n ([] @ [''SKILL.md'']) = Some (File content)"
        using Some File by (simp only:)
      have a: "lookup fs (p @ [''SKILL.md'']) = Some (File content)" using l b by (simp only:)
      have d: "directory_findings fs p = directory_findings n []"
        using assms by (rule directory_findings_focus)
      have r: "scan_reads_text fs p = scan_reads_text n []"
        using assms by (rule scan_reads_text_focus)
      show ?thesis
        unfolding validate_skill_on_file [OF a pf] validate_skill_on_file [OF b pf]
        by (simp only: d r)
    qed
  qed
qed

section \<open>The templates: basic facts\<close>

lemma unlines_Nil: "unlines [] = []"
  by (simp add: unlines_def)

lemma unlines_Cons: "unlines (l # ls) = l @ nl # unlines ls"
  by (simp add: unlines_def)

lemma contains_append_left: "contains a sub \<Longrightarrow> contains (a @ b) sub"
  unfolding contains_iff by (metis append.assoc)

lemma contains_append_right: "contains b sub \<Longrightarrow> contains (a @ b) sub"
  unfolding contains_iff by (metis append.assoc)

lemma contains_unlines:
  "l \<in> set ls \<Longrightarrow> contains l sub \<Longrightarrow> contains (unlines ls) sub"
proof (induction ls)
  case Nil
  then show ?case by simp
next
  case (Cons x xs)
  show ?case
  proof (cases "l = x")
    case True
    then have "contains (x @ nl # unlines xs) sub"
      using Cons.prems(2) by (simp add: contains_append_left)
    then show ?thesis by (simp add: unlines_Cons)
  next
    case False
    then have "contains (unlines xs) sub" using Cons by simp
    then have "contains (nl # unlines xs) sub" by simp
    then have "contains (x @ nl # unlines xs) sub" by (rule contains_append_right)
    then show ?thesis by (simp add: unlines_Cons)
  qed
qed

lemma lower_char_nl: "lower_char nl = nl"
  by code_simp

lemma lower_unlines: "lower (unlines ls) = unlines (map lower ls)"
  by (induction ls) (simp_all add: unlines_Nil unlines_Cons lower_def lower_char_nl)

lemma contains_lower_unlines:
  "l \<in> set ls \<Longrightarrow> contains (lower l) sub \<Longrightarrow> contains (lower (unlines ls)) sub"
  unfolding lower_unlines by (rule contains_unlines [of "lower l"]) auto

lemma length_filter_dropWhile:
  "length (filter (\<lambda>c. \<not> P c) (dropWhile P s)) = length (filter (\<lambda>c. \<not> P c) s)"
  by (induction s) auto

lemma length_strip_with_ge:
  "length (filter (\<lambda>c. \<not> P c) s) \<le> length (strip_with P s)"
proof -
  have "length (filter (\<lambda>c. \<not> P c) s) = length (filter (\<lambda>c. \<not> P c) (dropWhile P s))"
    by (simp add: length_filter_dropWhile)
  also have "\<dots> = length (filter (\<lambda>c. \<not> P c) (rev (dropWhile P s)))"
    by (simp flip: rev_filter)
  also have "\<dots> = length (filter (\<lambda>c. \<not> P c) (dropWhile P (rev (dropWhile P s))))"
    by (simp add: length_filter_dropWhile)
  also have "\<dots> \<le> length (dropWhile P (rev (dropWhile P s)))"
    by (rule length_filter_le)
  finally show ?thesis by (simp add: strip_with_def)
qed

lemma length_filter_unlines:
  "l \<in> set ls \<Longrightarrow> length (filter Q l) \<le> length (filter Q (unlines ls))"
  by (induction ls) (auto simp: unlines_Nil unlines_Cons intro: trans_le_add1 trans_le_add2)

lemma template_parts:
  "SKILL_MD_TEMPLATE skill_name skill_title
     = ''---'' @ manifest_block skill_name @ ''---'' @ manifest_body skill_title"
proof -
  have "SKILL_MD_TEMPLATE skill_name skill_title
      = unlines (''---'' # (''name: '' @ skill_name)
           # ''description: TODO - Add a description of when this skill should be used. Be specific about trigger conditions.''
           # ''---'' # manifest_body_lines skill_title)"
    by (simp only: SKILL_MD_TEMPLATE_def manifest_body_lines_def)
  then show ?thesis
    by (simp only: unlines_Cons unlines_Nil manifest_block_def manifest_body_def
          append_Cons append_Nil append_assoc append_Nil2)
qed

lemma title_my_skill:
  "title (replace_char (CHR ''_'') '' '' (replace_char (CHR ''-'') '' '' ''my-skill'')) = ''My Skill''"
  by code_simp

lemma block_my_skill: "\<not> contains (manifest_block ''my-skill'' @ ''--'') ''---''"
  by code_simp

lemma parse_block_my_skill:
  "parse_block (manifest_block ''my-skill'') =
     [(''name'', ''my-skill''),
      (''description'',
       ''TODO - Add a description of when this skill should be used. Be specific about trigger conditions.'')]"
  by code_simp

lemma fields_my_skill:
  "check_required_fields
     [(''name'', ''my-skill''),
      (''description'',
       ''TODO - Add a description of when this skill should be used. Be specific about trigger conditions.'')]
     []
   = [''Description contains TODO placeholder'']"
  by code_simp

lemma parse_my_skill:
  "parse_frontmatter (SKILL_MD_TEMPLATE ''my-skill'' ''My Skill'') =
     ([(''name'', ''my-skill''),
       (''description'',
        ''TODO - Add a description of when this skill should be used. Be specific about trigger conditions.'')],
      manifest_body ''My Skill'')"
  using parse_frontmatter_delimited [OF template_parts block_my_skill, of "''My Skill''"]
  by (simp only: parse_block_my_skill)

lemma body_has_placeholder: "contains (manifest_body skill_title) ''TODO''"
proof -
  have "''TODO - Describe the purpose and capabilities of this skill.''
          \<in> set (manifest_body_lines skill_title)"
    by (simp add: manifest_body_lines_def)
  moreover have "contains ''TODO - Describe the purpose and capabilities of this skill.'' ''TODO''"
    by code_simp
  ultimately have "contains (unlines (manifest_body_lines skill_title)) ''TODO''"
    by (rule contains_unlines)
  then show ?thesis unfolding manifest_body_def by (rule contains_append_right)
qed

lemma body_has_section:
  assumes "l \<in> set (manifest_body_lines skill_title)" and "contains (lower l) sub"
  shows "contains (lower (manifest_body skill_title)) sub"
proof -
  have "contains (lower (unlines (manifest_body_lines skill_title))) sub"
    using assms by (rule contains_lower_unlines)
  then have "contains (lower [nl] @ lower (unlines (manifest_body_lines skill_title))) sub"
    by (rule contains_append_right)
  then show ?thesis by (simp only: manifest_body_def lower_def map_append)
qed

lemma body_sections:
  "contains (lower (manifest_body skill_title)) (lower ''When to Use'')"
  "contains (lower (manifest_body skill_title)) (lower ''Workflow'')"
  "contains (lower (manifest_body skill_title)) (lower ''Example'')"
proof -
  have 1: "''## When to Use This Skill'' \<in> set (manifest_body_lines skill_title)"
    by (simp add: manifest_body_lines_def)
  have 2: "''## Workflow'' \<in> set (manifest_body_lines skill_title)"
    by (simp add: manifest_body_lines_def)
  have 3: "''## Examples'' \<in> set (manifest_body_lines skill_title)"
    by (simp add: manifest_body_lines_def)
  have a: "contains (lower ''## When to Use This Skill'') (lower ''When to Use'')" by code_simp
  have b: "contains (lower ''## Workflow'') (lower ''Workflow'')" by code_simp
  have c: "contains (lower ''## Examples'') (lower ''Example'')" by code_simp
  show "contains (lower (manifest_body skill_title)) (lower ''When to Use'')"
    using 1 a by (rule body_has_section)
  show "contains (lower (manifest_body skill_title)) (lower ''Workflow'')"
    using 2 b by (rule body_has_section)
  show "contains (lower (manifest_body skill_title)) (lower ''Example'')"
    using 3 c by (rule body_has_section)
qed

lemma length_filter_unlines_sum:
  "sum_list (map (\<lambda>l. length (filter Q l)) ls) \<le> length (filter Q (unlines ls))"
  by (induction ls) (auto simp: unlines_Nil unlines_Cons)

lemma body_nonspace_my_skill:
  "100 \<le> sum_list (map (\<lambda>l. length (filter (\<lambda>c. \<not> isspace c) l))
                        (manifest_body_lines ''My Skill''))"
  by code_simp

lemma body_long_enough: "100 \<le> length (strip (manifest_body ''My Skill''))"
proof -
  let ?Q = "\<lambda>c. \<not> isspace c"
  have "100 \<le> length (filter ?Q (unlines (manifest_body_lines ''My Skill'')))"
    using body_nonspace_my_skill length_filter_unlines_sum [of ?Q "manifest_body_lines ''My Skill''"]
    by (rule order_trans)
  also have "\<dots> \<le> length (filter ?Q (manifest_body ''My Skill''))"
    by (simp add: manifest_body_def)
  also have "\<dots> \<le> length (strip (manifest_body ''My Skill''))"
    unfolding strip_def by (rule length_strip_with_ge)
  finally show ?thesis .
qed

lemma body_my_skill:
  "check_body_content (manifest_body ''My Skill'') []
     = [''SKILL.md body contains TODO placeholders'']"
  using body_long_enough body_has_placeholder [of "''My Skill''"]
  by (simp add: check_body_content_def)

lemma sections_my_skill: "check_recommended_sections (manifest_body ''My Skill'') [] = []"
  using body_sections [of "''My Skill''"]
  by (simp add: check_recommended_sections_def recommended_sections_def)

lemma script_has_placeholder: "contains (SCRIPT_TEMPLATE script_name) ''TODO''"
  unfolding SCRIPT_TEMPLATE_def
  apply (rule contains_unlines [of "''TODO - Description of what this script does.''"])
   apply simp
  apply code_simp
  done

lemma reference_has_placeholder: "contains REFERENCE_TEMPLATE ''TODO''"
  unfolding REFERENCE_TEMPLATE_def
  apply (rule contains_unlines
           [of "''TODO - Add reference documentation that Claude should load as needed.''"])
   apply simp
  apply code_simp
  done

lemma directory_findings_skill_tree:
  "directory_findings (skill_tree skill_name) [] =
     [placeholder_error ''scripts'' ''example.py'',
      placeholder_error ''references'' ''example.md'']"
  by (simp add: directory_findings_def subdir_findings_def file_findings_def glob_star_def
        is_dir_def skill_tree_def script_has_placeholder reference_has_placeholder)

lemma scan_reads_text_skill_tree: "scan_reads_text (skill_tree skill_name) []"
  by (simp add: scan_reads_text_def subdir_reads_text_def reads_text_def glob_star_def
        is_dir_def skill_tree_def)

lemma validate_skill_tree_my_skill:
  "validate_skill (skill_tree ''my-skill'') [] =
     Inr [''Description contains TODO placeholder'',
          ''SKILL.md body contains TODO placeholders'',
          placeholder_error ''scripts'' ''example.py'',
          placeholder_error ''references'' ''example.md'']"
proof -
  have l: "lookup (skill_tree ''my-skill'') ([] @ [''SKILL.md''])
             = Some (File (SKILL_MD_TEMPLATE ''my-skill'' ''My Skill''))"
    by (simp add: skill_tree_def title_my_skill)
  show ?thesis
    unfolding validate_skill_on_file [OF l parse_my_skill]
    by (simp only: fields_my_skill body_my_skill sections_my_skill
          directory_findings_skill_tree scan_reads_text_skill_tree if_True
          append_Cons append_Nil)
qed

lemma valid_skill_name_my_skill: "valid_skill_name ''my-skill''"
  by code_simp

lemma create_skill_my_skill:
  "create_skill (Dir []) ''my-skill'' [''skills'']
     = (None, Dir [(''skills'', Dir [(''my-skill'', skill_tree ''my-skill'')])])"
  by (simp add: create_skill_def valid_skill_name_my_skill exists_def skill_tree_def)

lemma no_missing_section_my_skill:
  "missing_section section_name
     \<notin> set [''Description contains TODO placeholder'',
              ''SKILL.md body contains TODO placeholders'',
              placeholder_error ''scripts'' ''example.py'',
              placeholder_error ''references'' ''example.md'']"
  by (simp add: missing_section_def placeholder_error_def)


section \<open>The round trip: basic facts\<close>

lemma unlines_append: "unlines (xs @ ys) = unlines xs @ unlines ys"
  by (simp add: unlines_def)

lemma startswith_sep_char:
  "c \<notin> set sep \<Longrightarrow> startswith (a @ c # b) sep = startswith a sep"
proof (induction a arbitrary: sep)
  case Nil
  then show ?case by (cases sep) (auto simp: startswith_Cons startswith_Nil_left)
next
  case (Cons x xs)
  then show ?case by (cases sep) (auto simp: startswith_Cons)
qed

lemma contains_sep_char:
  "c \<notin> set sep \<Longrightarrow> contains (a @ c # b) sep = (contains a sep \<or> contains b sep)"
proof (induction a)
  case Nil
  then show ?case using startswith_sep_char [of c sep "[]" b]
    by (auto simp: startswith_Nil_left)
next
  case (Cons x xs)
  then show ?case using startswith_sep_char [of c sep "x # xs" b] by auto
qed

lemma entry_line_no_delimiter:
  assumes "plain_key k" "plain_value v"
  shows "\<not> contains (entry_line (k, v)) ''---''"
proof -
  have "contains (k @ CHR '':'' # (CHR '' '' # v)) ''---''
          = (contains k ''---'' \<or> contains (CHR '' '' # v) ''---'')"
    by (rule contains_sep_char) simp
  moreover have "contains ([] @ CHR '' '' # v) ''---'' = (contains [] ''---'' \<or> contains v ''---'')"
    by (rule contains_sep_char) simp
  ultimately show ?thesis
    using assms by (simp add: entry_line_def plain_key_def plain_value_def)
qed

lemma unlines_no_delimiter:
  "\<forall>l \<in> set ls. \<not> contains l ''---'' \<Longrightarrow> \<not> contains (unlines ls @ ''--'') ''---''"
proof (induction ls)
  case Nil
  show ?case by (simp add: unlines_Nil startswith_def)
next
  case (Cons l ls)
  have "contains (l @ nl # (unlines ls @ ''--'')) ''---''
          = (contains l ''---'' \<or> contains (unlines ls @ ''--'') ''---'')"
    by (rule contains_sep_char) (simp add: nl_def)
  then show ?case using Cons by (simp add: unlines_Cons)
qed

lemma block_no_delimiter:
  assumes "plain_dict d"
  shows "\<not> contains ((nl # unlines (map entry_line d)) @ ''--'') ''---''"
proof -
  have "\<forall>l \<in> set (map entry_line d). \<not> contains l ''---''"
    using assms entry_line_no_delimiter
    by (auto simp: plain_dict_def list_all_iff)
  then have "\<not> contains (unlines (map entry_line d) @ ''--'') ''---''"
    by (rule unlines_no_delimiter)
  moreover have "contains ([] @ nl # (unlines (map entry_line d) @ ''--'')) ''---''
          = (contains [] ''---'' \<or> contains (unlines (map entry_line d) @ ''--'') ''---'')"
    by (rule contains_sep_char) (simp add: nl_def)
  ultimately show ?thesis by simp
qed

lemma serialize_parts:
  "serialize d = ''---'' @ (nl # unlines (map entry_line d)) @ ''---'' @ [nl]"
  by (simp add: serialize_def unlines_append unlines_Cons unlines_Nil)

lemma takeWhile_until:
  "c \<notin> set l \<Longrightarrow> takeWhile (\<lambda>x. x \<noteq> c) (l @ c # rest) = l"
  by (induction l) auto

lemma dropWhile_until:
  "c \<notin> set l \<Longrightarrow> dropWhile (\<lambda>x. x \<noteq> c) (l @ c # rest) = c # rest"
  by (induction l) auto

lemma split_first_nl_line:
  "nl \<notin> set l \<Longrightarrow> split_first [nl] (l @ nl # rest) = Some (l, rest)"
  by (simp add: split_first_single takeWhile_until dropWhile_until)

lemma py_split_no_nl: "nl \<notin> set l \<Longrightarrow> py_split [nl] n l = [l]"
  by (cases n) (simp_all add: split_first_single)

lemma py_split_lines:
  "\<forall>x \<in> set ls. nl \<notin> set x \<Longrightarrow> nl \<notin> set l \<Longrightarrow> length ls \<le> n \<Longrightarrow>
   py_split [nl] n (unlines ls @ l) = ls @ [l]"
proof (induction ls arbitrary: n)
  case Nil
  then show ?case by (simp add: unlines_Nil py_split_no_nl)
next
  case (Cons x xs)
  then obtain m where n: "n = Suc m" "length xs \<le> m" by (cases n) auto
  have "split_first [nl] (x @ nl # (unlines xs @ l)) = Some (x, unlines xs @ l)"
    using Cons.prems(1) by (simp add: split_first_nl_line)
  moreover have "py_split [nl] m (unlines xs @ l) = xs @ [l]"
    using Cons n by simp
  ultimately show ?case using n by (simp add: unlines_Cons)
qed

lemma length_unlines_ge: "length ls \<le> length (unlines ls)"
  by (induction ls) (simp_all add: unlines_Nil unlines_Cons)

lemma split_all_lines:
  assumes "\<forall>x \<in> set ls. nl \<notin> set x" "nl \<notin> set l"
  shows "split_all [nl] (unlines ls @ l) = ls @ [l]"
  unfolding split_all_def
  using assms length_unlines_ge [of ls] by (intro py_split_lines) auto

lemma dropWhile_all: "\<forall>c \<in> set pre. P c \<Longrightarrow> dropWhile P (pre @ s) = dropWhile P s"
  by (induction pre) auto

lemma strip_with_sandwich:
  assumes "\<forall>c \<in> set pre. P c" "\<forall>c \<in> set post. P c"
    and "mid \<noteq> []" "\<not> P (hd mid)" "\<not> P (last mid)"
  shows "strip_with P (pre @ mid @ post) = mid"
proof -
  have "dropWhile P (pre @ mid @ post) = dropWhile P (mid @ post)"
    using assms(1) by (rule dropWhile_all)
  also have "\<dots> = mid @ post" using assms(3,4) by (cases mid) auto
  finally have 1: "dropWhile P (pre @ mid @ post) = mid @ post" .
  have "dropWhile P (rev post @ rev mid) = dropWhile P (rev mid)"
    using assms(2) by (intro dropWhile_all) simp
  also have "\<dots> = rev mid"
    using assms(3,5) by (cases "rev mid") (auto simp: hd_rev)
  finally have 2: "dropWhile P (rev (mid @ post)) = rev mid" by simp
  show ?thesis unfolding strip_with_def 1 2 by simp
qed

lemma strip_with_Nil: "strip_with P [] = []"
  by (simp add: strip_with_def)

lemma strip_with_all:
  assumes "\<forall>c \<in> set s. P c"
  shows "strip_with P s = []"
proof -
  have "dropWhile P s = []" using assms by (simp add: dropWhile_eq_Nil_conv)
  then show ?thesis unfolding strip_with_def by (simp only: rev.simps dropWhile.simps)
qed

lemma strip_with_leading: "P c \<Longrightarrow> strip_with P (c # s) = strip_with P s"
  by (simp add: strip_with_def)

lemma isspace_space: "isspace (CHR '' '')"
  by code_simp

lemma isspace_nl: "isspace nl"
  by code_simp

lemma not_isspace_colon: "\<not> isspace (CHR '':'')"
  by code_simp

lemma frontmatter_line_entry:
  assumes "plain_key k" "plain_value v"
  shows "frontmatter_line (k @ '': '' @ v) fm = AList.update k v fm"
proof -
  have c: "contains (k @ '': '' @ v) '':''" by (simp add: contains_single)
  have t: "takeWhile (\<lambda>c. c \<noteq> CHR '':'') (k @ '': '' @ v) = k"
    using assms(1) by (simp add: plain_key_def takeWhile_until)
  have d: "tl (dropWhile (\<lambda>c. c \<noteq> CHR '':'') (k @ '': '' @ v)) = CHR '' '' # v"
    using assms(1) by (simp add: plain_key_def dropWhile_until)
  have s: "strip (CHR '' '' # v) = v"
    using assms(2) isspace_space by (simp add: strip_def strip_with_leading plain_value_def)
  show ?thesis
    unfolding frontmatter_line_eq [OF c] t d s
    using assms by (simp add: plain_key_def plain_value_def)
qed

lemma frontmatter_line_entry_stripped:
  assumes "plain_key k"
  shows "frontmatter_line (k @ '':'') fm = AList.update k [] fm"
proof -
  have c: "contains (k @ '':'') '':''" by (simp add: contains_single)
  have t: "takeWhile (\<lambda>c. c \<noteq> CHR '':'') (k @ '':'') = k"
    using assms(1) by (simp add: plain_key_def takeWhile_until)
  have d: "tl (dropWhile (\<lambda>c. c \<noteq> CHR '':'') (k @ '':'')) = []"
    using assms(1) by (simp add: plain_key_def dropWhile_until)
  show ?thesis
    unfolding frontmatter_line_eq [OF c] t d
    using assms by (simp add: plain_key_def strip_def strip_chars_def strip_with_Nil)
qed

lemma fold_update_fresh:
  "distinct (map fst d) \<Longrightarrow> fst ` set acc \<inter> fst ` set d = {} \<Longrightarrow>
   fold (\<lambda>kv. AList.update (fst kv) (snd kv)) d acc = acc @ d"
proof (induction d arbitrary: acc)
  case Nil
  then show ?case by simp
next
  case (Cons kv d)
  have fresh: "fst kv \<notin> fst ` set acc" using Cons.prems(2) by auto
  have u: "AList.update (fst kv) (snd kv) acc = acc @ [kv]"
    using fresh by (induction acc) auto
  have "fold (\<lambda>kv. AList.update (fst kv) (snd kv)) d (acc @ [kv]) = (acc @ [kv]) @ d"
    using Cons.prems by (intro Cons.IH) auto
  then show ?case using u by simp
qed

lemma plain_key_head:
  assumes "plain_key k"
  shows "\<not> isspace (hd (k @ CHR '':'' # rest))"
proof (cases k)
  case Nil
  then show ?thesis by (simp add: not_isspace_colon)
next
  case (Cons c cs)
  have "strip_with isspace k \<noteq> []" using assms Cons by (simp add: plain_key_def strip_def)
  then have "\<not> isspace (hd (strip_with isspace k))" using strip_with_ends by blast
  then show ?thesis using assms Cons by (simp add: plain_key_def strip_def)
qed

lemma plain_value_last:
  assumes "plain_value v" "v \<noteq> []"
  shows "\<not> isspace (last v)"
proof -
  have "strip_with isspace v \<noteq> []" using assms by (simp add: plain_value_def strip_def)
  then have "\<not> isspace (last (strip_with isspace v))" using strip_with_ends by blast
  then show ?thesis using assms by (simp add: plain_value_def strip_def)
qed

lemma entry_line_no_nl:
  "plain_key k \<Longrightarrow> plain_value v \<Longrightarrow> nl \<notin> set (entry_line (k, v))"
  by (simp add: entry_line_def plain_key_def plain_value_def nl_def)

lemma entry_line_head:
  "plain_key (fst kv) \<Longrightarrow> entry_line kv \<noteq> [] \<and> \<not> isspace (hd (entry_line kv))"
  using plain_key_head [of "fst kv" "CHR '' '' # snd kv"] by (simp add: entry_line_def)

lemma hd_unlines_append:
  assumes "\<forall>l \<in> set ls. l \<noteq> [] \<and> \<not> P (hd l)" "fl \<noteq> []" "\<not> P (hd fl)"
  shows "\<not> P (hd (unlines ls @ fl))"
proof (cases ls)
  case Nil
  then show ?thesis using assms by (simp add: unlines_Nil)
next
  case (Cons x xs)
  then have "x \<noteq> []" "\<not> P (hd x)" using assms(1) by auto
  then show ?thesis using Cons by (simp add: unlines_Cons)
qed

lemma fold_frontmatter_lines:
  "list_all (\<lambda>kv. plain_key (fst kv) \<and> plain_value (snd kv)) d \<Longrightarrow>
   fold frontmatter_line (map entry_line d) acc
     = fold (\<lambda>kv. AList.update (fst kv) (snd kv)) d acc"
proof (induction d arbitrary: acc)
  case Nil
  then show ?case by simp
next
  case (Cons kv d)
  have "frontmatter_line (entry_line kv) acc = AList.update (fst kv) (snd kv) acc"
    using Cons.prems frontmatter_line_entry [of "fst kv" "snd kv" acc]
    by (simp add: entry_line_def)
  then show ?case using Cons by simp
qed

lemma parse_block_entries:
  assumes "plain_dict d"
  shows "parse_block (nl # unlines (map entry_line d)) = d"
proof (cases d rule: rev_cases)
  case Nil
  have "strip [nl] = []"
    unfolding strip_def by (rule strip_with_all) (simp add: isspace_nl)
  then show ?thesis
    using Nil by (simp add: parse_block_def unlines_Nil split_all_def frontmatter_line_def)
next
  case (snoc d' kv)
  obtain k v where kv: "kv = (k, v)" by (cases kv)
  have all: "list_all (\<lambda>kv. plain_key (fst kv) \<and> plain_value (snd kv)) d'"
    and pk: "plain_key k" and pv: "plain_value v"
    and dist: "distinct (map fst (d' @ [(k, v)]))"
    using assms snoc kv by (auto simp: plain_dict_def)
  let ?ls = "map entry_line d'"
  define fl where "fl = (if v = [] then k @ '':'' else k @ '': '' @ v)"
  define post where "post = (if v = [] then '' '' @ [nl] else [nl])"
  have fl_post: "entry_line (k, v) @ [nl] = fl @ post"
    by (simp add: fl_def post_def entry_line_def)
  have block: "nl # unlines (map entry_line d) = [nl] @ (unlines ?ls @ fl) @ post"
    using snoc kv fl_post by (simp add: unlines_append unlines_Cons unlines_Nil)
  have fl_ne: "fl \<noteq> []" by (simp add: fl_def)
  have fl_hd: "\<not> isspace (hd fl)"
    using plain_key_head [OF pk, of "[]"] plain_key_head [OF pk, of "CHR '' '' # v"]
    by (simp add: fl_def)
  have fl_last: "\<not> isspace (last fl)"
    using plain_value_last [OF pv] by (simp add: fl_def not_isspace_colon)
  have fl_nl: "nl \<notin> set fl"
    using pk pv by (simp add: fl_def plain_key_def plain_value_def nl_def)
  have ls_nl: "\<forall>x \<in> set ?ls. nl \<notin> set x"
    using all entry_line_no_nl by (auto simp: list_all_iff)
  have ls_hd: "\<forall>l \<in> set ?ls. l \<noteq> [] \<and> \<not> isspace (hd l)"
    using all entry_line_head by (auto simp: list_all_iff)
  have mid_ne: "unlines ?ls @ fl \<noteq> []" using fl_ne by simp
  have mid_hd: "\<not> isspace (hd (unlines ?ls @ fl))"
    using ls_hd fl_ne fl_hd by (rule hd_unlines_append)
  have mid_last: "\<not> isspace (last (unlines ?ls @ fl))" using fl_ne fl_last by simp
  have post_sp: "\<forall>c \<in> set post. isspace c"
    by (simp add: post_def isspace_nl isspace_space)
  have "strip (nl # unlines (map entry_line d)) = unlines ?ls @ fl"
    unfolding block strip_def
    by (rule strip_with_sandwich) (use mid_ne mid_hd mid_last post_sp isspace_nl in auto)
  moreover have "split_all [nl] (unlines ?ls @ fl) = ?ls @ [fl]"
    using ls_nl fl_nl by (rule split_all_lines)
  ultimately have "parse_block (nl # unlines (map entry_line d))
      = frontmatter_line fl (fold frontmatter_line ?ls [])"
    by (simp add: parse_block_def)
  also have "fold frontmatter_line ?ls [] = fold (\<lambda>kv. AList.update (fst kv) (snd kv)) d' []"
    using all by (rule fold_frontmatter_lines)
  also have "frontmatter_line fl (fold (\<lambda>kv. AList.update (fst kv) (snd kv)) d' [])
      = AList.update k v (fold (\<lambda>kv. AList.update (fst kv) (snd kv)) d' [])"
    using frontmatter_line_entry [OF pk pv] frontmatter_line_entry_stripped [OF pk]
    by (simp add: fl_def)
  also have "\<dots> = fold (\<lambda>kv. AList.update (fst kv) (snd kv)) (d' @ [(k, v)]) []"
    by simp
  also have "\<dots> = [] @ (d' @ [(k, v)])"
    using dist by (intro fold_update_fresh) auto
  finally show ?thesis using snoc kv by simp
qed



section \<open>The claims about the parser\<close>

text \<open>
  C7. A frontmatter line that contains the separator \<open>:\<close> is split at its first
  occurrence only: the key is what precedes it, the value everything after it, further
  separators included (each trimmed, the value without its outer quotes). The document
  whose only line is \<open>description: a: b\<close> parses to the key \<open>description\<close> with the
  value \<open>a: b\<close>.
\<close>

theorem split_on_first_separator:
  "(contains line '':'' \<longrightarrow>
      frontmatter_line line fm =
        AList.update (strip (takeWhile (\<lambda>c. c \<noteq> CHR '':'') line))
          (strip_chars [dquote, squote] (strip (tl (dropWhile (\<lambda>c. c \<noteq> CHR '':'') line))))
          fm)
   \<and> parse_frontmatter (unlines [''---'', ''description: a: b'', ''---''])
       = ([(''description'', ''a: b'')], [nl])"
proof
  show "contains line '':'' \<longrightarrow>
      frontmatter_line line fm =
        AList.update (strip (takeWhile (\<lambda>c. c \<noteq> CHR '':'') line))
          (strip_chars [dquote, squote] (strip (tl (dropWhile (\<lambda>c. c \<noteq> CHR '':'') line))))
          fm"
    by (simp add: frontmatter_line_eq)
  show "parse_frontmatter (unlines [''---'', ''description: a: b'', ''---''])
       = ([(''description'', ''a: b'')], [nl])"
    by code_simp
qed

theorem split_on_first_separator_witness:
  "contains ''description: a: b'' '':''
   \<and> frontmatter_line ''description: a: b'' [] = [(''description'', ''a: b'')]"
proof -
  have h: "contains ''description: a: b'' '':''" by code_simp
  have "frontmatter_line ''description: a: b'' [] =
        AList.update (strip (takeWhile (\<lambda>c. c \<noteq> CHR '':'') ''description: a: b''))
          (strip_chars [dquote, squote]
             (strip (tl (dropWhile (\<lambda>c. c \<noteq> CHR '':'') ''description: a: b'')))) []"
    using split_on_first_separator [of "''description: a: b''" "[]"] h by blast
  also have "\<dots> = [(''description'', ''a: b'')]" by code_simp
  finally show ?thesis using h by simp
qed

text \<open>
  C10. The delimiter is matched as a substring, not as a line: in a document that
  starts with \<open>---\<close>, the frontmatter block ends at the next occurrence of \<open>---\<close>,
  wherever it is, and all the text after that occurrence is the body. The witness has
  the occurrence in the middle of a line, inside a value.
\<close>

theorem delimiter_is_a_substring:
  "content = ''---'' @ block @ ''---'' @ body \<Longrightarrow>
   \<not> contains (block @ ''--'') ''---'' \<Longrightarrow>
   parse_frontmatter content = (parse_block block, body)"
  by (rule parse_frontmatter_delimited)

theorem delimiter_is_a_substring_witness:
  "\<not> contains ((nl # ''name: a'') @ ''--'') ''---''
   \<and> parse_frontmatter (''---'' @ (nl # ''name: a'') @ ''---'' @ (''b'' @ [nl] @ ''---'' @ [nl] @ ''rest''))
       = ([(''name'', ''a'')], ''b'' @ [nl] @ ''---'' @ [nl] @ ''rest'')"
proof -
  have h: "\<not> contains ((nl # ''name: a'') @ ''--'') ''---''" by code_simp
  have p: "parse_block (nl # ''name: a'') = [(''name'', ''a'')]" by code_simp
  show ?thesis
    using delimiter_is_a_substring [OF refl h, of "''b'' @ [nl] @ ''---'' @ [nl] @ ''rest''"] h p
    by simp
qed

text \<open>
  C3, amended. For every frontmatter line with a separator, the parser removes from
  the trimmed value all the single and double quote characters at its two ends,
  matched or not, and none inside; the key is trimmed only. So the trimmed text after
  the separator is the stored value between two runs of quote characters, and the
  stored value neither starts nor ends with a quote.
\<close>

theorem all_quotes_stripped:
  "contains line '':'' \<Longrightarrow>
   \<exists>v pre post.
     frontmatter_line line fm =
       AList.update (strip (takeWhile (\<lambda>c. c \<noteq> CHR '':'') line)) v fm
     \<and> strip (tl (dropWhile (\<lambda>c. c \<noteq> CHR '':'') line)) = pre @ v @ post
     \<and> list_all is_quote pre \<and> list_all is_quote post
     \<and> (v \<noteq> [] \<longrightarrow> \<not> is_quote (hd v) \<and> \<not> is_quote (last v))"
proof -
  assume c: "contains line '':''"
  let ?raw = "strip (tl (dropWhile (\<lambda>c. c \<noteq> CHR '':'') line))"
  let ?P = "\<lambda>c. c \<in> set [dquote, squote]"
  let ?v = "strip_with ?P ?raw"
  have P: "?P = is_quote" by (auto simp: is_quote_def)
  obtain pre post where d: "?raw = pre @ ?v @ post" "\<forall>c \<in> set pre. ?P c" "\<forall>c \<in> set post. ?P c"
    using strip_with_decompose [of ?raw ?P] by blast
  have e: "?v \<noteq> [] \<longrightarrow> \<not> ?P (hd ?v) \<and> \<not> ?P (last ?v)"
    using strip_with_ends [of ?P ?raw] by blast
  have f: "frontmatter_line line fm =
       AList.update (strip (takeWhile (\<lambda>c. c \<noteq> CHR '':'') line)) ?v fm"
    using c by (simp add: frontmatter_line_eq strip_chars_def)
  have "list_all is_quote pre" "list_all is_quote post"
    using d(2,3) by (auto simp: list_all_iff is_quote_def)
  moreover have "?v \<noteq> [] \<longrightarrow> \<not> is_quote (hd ?v) \<and> \<not> is_quote (last ?v)"
    using e by (auto simp: is_quote_def)
  ultimately show ?thesis using d(1) f by blast
qed

theorem all_quotes_stripped_witness:
  "contains (''k: '' @ [dquote] @ ''a'') '':''
   \<and> (\<exists>v pre post.
     frontmatter_line (''k: '' @ [dquote] @ ''a'') [] =
       AList.update (strip (takeWhile (\<lambda>c. c \<noteq> CHR '':'') (''k: '' @ [dquote] @ ''a''))) v []
     \<and> strip (tl (dropWhile (\<lambda>c. c \<noteq> CHR '':'') (''k: '' @ [dquote] @ ''a''))) = pre @ v @ post
     \<and> list_all is_quote pre \<and> list_all is_quote post
     \<and> (v \<noteq> [] \<longrightarrow> \<not> is_quote (hd v) \<and> \<not> is_quote (last v)))"
proof -
  have h: "contains (''k: '' @ [dquote] @ ''a'') '':''" by code_simp
  show ?thesis using all_quotes_stripped [OF h, of "[]"] h by blast
qed

text \<open>
  The claim as the specification words it fails: in the line \<open>k: "a\<close> the quote has no
  partner, one matching layer would keep it, and the parser removes it.
\<close>

theorem quotes_counterexample:
  "frontmatter_line (''k: '' @ [dquote] @ ''a'') [] = [(''k'', ''a'')]
   \<and> strip_one_matching_layer (strip (tl (dropWhile (\<lambda>c. c \<noteq> CHR '':'') (''k: '' @ [dquote] @ ''a''))))
       = [dquote] @ ''a''
   \<and> ''a'' \<noteq> [dquote] @ ''a''"
  by code_simp

section \<open>The claims about the validator\<close>

text \<open>
  C6. When there is no \<open>SKILL.md\<close> in the skill directory, \<open>validate_skill\<close> returns
  exactly the list with the one message \<open>SKILL.md file not found\<close>: no other check
  contributes. No other rule ends the validation: when the manifest is a text file
  and \<open>validate_skill\<close> returns a list, that list has the message of every rule of
  the table whose own condition holds, whatever the other rules find, followed by
  what the scan finds in every file of the three subdirectories.
\<close>

theorem missing_manifest_short_circuits:
  "(lookup fs (skill_path @ [''SKILL.md'']) = None \<longrightarrow>
      \<not> exists fs (skill_path @ [''SKILL.md''])
      \<and> validate_skill fs skill_path = Inr [''SKILL.md file not found''])
   \<and> (lookup fs (skill_path @ [''SKILL.md'']) = Some (File content)
        \<and> validate_skill fs skill_path = Inr errors \<longrightarrow>
        errors =
          fired (rule_table (fst (parse_frontmatter content)) (snd (parse_frontmatter content)))
          @ directory_findings fs skill_path)"
proof (intro conjI impI)
  assume "lookup fs (skill_path @ [''SKILL.md'']) = None"
  then show "\<not> exists fs (skill_path @ [''SKILL.md''])" by (simp add: exists_def)
next
  assume "lookup fs (skill_path @ [''SKILL.md'']) = None"
  then show "validate_skill fs skill_path = Inr [''SKILL.md file not found'']"
    by (rule validate_skill_missing)
next
  assume a: "lookup fs (skill_path @ [''SKILL.md'']) = Some (File content)
        \<and> validate_skill fs skill_path = Inr errors"
  have "errors =
      check_required_fields (fst (parse_frontmatter content)) []
      @ check_body_content (snd (parse_frontmatter content)) []
      @ check_recommended_sections (snd (parse_frontmatter content)) []
      @ directory_findings fs skill_path"
    using a validate_skill_returns [of fs skill_path content] by simp
  then show "errors =
          fired (rule_table (fst (parse_frontmatter content)) (snd (parse_frontmatter content)))
          @ directory_findings fs skill_path"
    using checks_fired
      [of "fst (parse_frontmatter content)" "snd (parse_frontmatter content)"]
    by simp
qed

theorem missing_manifest_short_circuits_witness:
  \<open>lookup (Dir []) ([''s''] @ [''SKILL.md'']) = None
   \<and> validate_skill (Dir []) [''s''] = Inr [''SKILL.md file not found'']
   \<and> lookup (Dir [(''SKILL.md'', File ''x'')]) ([] @ [''SKILL.md'']) = Some (File ''x'')
   \<and> validate_skill (Dir [(''SKILL.md'', File ''x'')]) [] =
        Inr [''Missing required field '' @ [squote] @ ''name'' @ [squote] @ '' in frontmatter'',
             ''Missing required field '' @ [squote] @ ''description'' @ [squote]
               @ '' in frontmatter'',
             ''SKILL.md body is too short. Add detailed instructions.'',
             missing_section ''When to Use'', missing_section ''Workflow'',
             missing_section ''Example'']
   \<and> [''Missing required field '' @ [squote] @ ''name'' @ [squote] @ '' in frontmatter'',
       ''Missing required field '' @ [squote] @ ''description'' @ [squote]
         @ '' in frontmatter'',
       ''SKILL.md body is too short. Add detailed instructions.'',
       missing_section ''When to Use'', missing_section ''Workflow'',
       missing_section ''Example'']
     = fired (rule_table (fst (parse_frontmatter ''x'')) (snd (parse_frontmatter ''x'')))
       @ directory_findings (Dir [(''SKILL.md'', File ''x'')]) []\<close>
proof -
  let ?F = "Dir [(''SKILL.md'', File ''x'')]"
  let ?E = \<open>[''Missing required field '' @ [squote] @ ''name'' @ [squote] @ '' in frontmatter'',
       ''Missing required field '' @ [squote] @ ''description'' @ [squote]
         @ '' in frontmatter'',
       ''SKILL.md body is too short. Add detailed instructions.'',
       missing_section ''When to Use'', missing_section ''Workflow'',
       missing_section ''Example'']\<close>
  have a: "lookup (Dir []) ([''s''] @ [''SKILL.md'']) = None" by simp
  have b: "lookup ?F ([] @ [''SKILL.md'']) = Some (File ''x'')" by simp
  have c: "validate_skill ?F [] = Inr ?E" by code_simp
  have d: "validate_skill (Dir []) [''s''] = Inr [''SKILL.md file not found'']"
    using missing_manifest_short_circuits [of "Dir []" "[''s'']"] a by blast
  have e: "?E = fired (rule_table (fst (parse_frontmatter ''x'')) (snd (parse_frontmatter ''x'')))
             @ directory_findings ?F []"
    using missing_manifest_short_circuits [of ?F "[]" "''x''" ?E] b c by blast
  show ?thesis using a b c d e by blast
qed

text \<open>
  C5. For a manifest whose \<open>description\<close> has exactly 49 characters, the list that
  \<open>validate_skill\<close> returns reports that the description is too short, with the length
  49 in the message; at exactly 50 characters no message of that kind, for any length,
  is in the list.
\<close>

theorem description_length_boundary:
  assumes "lookup fs (skill_path @ [''SKILL.md'']) = Some (File content)"
    and "map_of (fst (parse_frontmatter content)) ''description'' = Some desc"
    and "validate_skill fs skill_path = Inr errors"
  shows "(length desc = 49 \<longrightarrow>
            ''Description too short (49 chars). Should be at least 50 characters.''
              \<in> set errors)
       \<and> (length desc = 50 \<longrightarrow> (\<forall>n. description_too_short n \<notin> set errors))"
proof -
  obtain fm body where pf: "parse_frontmatter content = (fm, body)"
    by (cases "parse_frontmatter content")
  have e: "errors = check_required_fields fm [] @ check_body_content body []
                @ check_recommended_sections body [] @ directory_findings fs skill_path"
    using assms(1) pf assms(3) by (rule validate_skill_returns)
  have d: "map_of fm ''description'' = Some desc" using assms(2) pf by simp
  have others: "description_too_short n \<notin> set (check_body_content body [])
      \<and> description_too_short n \<notin> set (check_recommended_sections body [])
      \<and> description_too_short n \<notin> set (directory_findings fs skill_path)" for n
    using body_content_errors_hd [of "description_too_short n" body]
      recommended_sections_errors_hd [of "description_too_short n" body]
      directory_findings_hd [of "description_too_short n" fs skill_path]
    by (auto simp: hd_description_too_short)
  show ?thesis
  proof (intro conjI impI)
    assume "length desc = 49"
    then show "''Description too short (49 chars). Should be at least 50 characters.''
                  \<in> set errors"
      using too_short_49 [OF d] e by simp
  next
    assume "length desc = 50"
    then show "\<forall>n. description_too_short n \<notin> set errors"
      using not_too_short_50 [OF d] others e by simp
  qed
qed

theorem description_length_boundary_witness:
  "lookup (Dir [(''SKILL.md'',
             File (unlines [''---'', ''description: '' @ replicate 49 (CHR ''x''), ''---'']))])
          ([] @ [''SKILL.md''])
     = Some (File (unlines [''---'', ''description: '' @ replicate 49 (CHR ''x''), ''---'']))
   \<and> map_of (fst (parse_frontmatter
                (unlines [''---'', ''description: '' @ replicate 49 (CHR ''x''), ''---''])))
        ''description'' = Some (replicate 49 (CHR ''x''))
   \<and> length (replicate 49 (CHR ''x'')) = 49
   \<and> \<not> isl (validate_skill
           (Dir [(''SKILL.md'',
              File (unlines [''---'', ''description: '' @ replicate 49 (CHR ''x''), ''---'']))]) [])
   \<and> ''Description too short (49 chars). Should be at least 50 characters.''
       \<in> set (projr (validate_skill
           (Dir [(''SKILL.md'',
              File (unlines [''---'', ''description: '' @ replicate 49 (CHR ''x''), ''---'']))]) []))
   \<and> lookup (Dir [(''SKILL.md'',
             File (unlines [''---'', ''description: '' @ replicate 50 (CHR ''x''), ''---'']))])
          ([] @ [''SKILL.md''])
     = Some (File (unlines [''---'', ''description: '' @ replicate 50 (CHR ''x''), ''---'']))
   \<and> map_of (fst (parse_frontmatter
                (unlines [''---'', ''description: '' @ replicate 50 (CHR ''x''), ''---''])))
        ''description'' = Some (replicate 50 (CHR ''x''))
   \<and> length (replicate 50 (CHR ''x'')) = 50
   \<and> \<not> isl (validate_skill
           (Dir [(''SKILL.md'',
              File (unlines [''---'', ''description: '' @ replicate 50 (CHR ''x''), ''---'']))]) [])
   \<and> (\<forall>n. description_too_short n
          \<notin> set (projr (validate_skill
           (Dir [(''SKILL.md'',
              File (unlines [''---'', ''description: '' @ replicate 50 (CHR ''x''), ''---'']))]) [])))"
proof -
  let ?m49 = "unlines [''---'', ''description: '' @ replicate 49 (CHR ''x''), ''---'']"
  let ?m50 = "unlines [''---'', ''description: '' @ replicate 50 (CHR ''x''), ''---'']"
  let ?f49 = "Dir [(''SKILL.md'', File ?m49)]"
  let ?f50 = "Dir [(''SKILL.md'', File ?m50)]"
  have l49: "lookup ?f49 ([] @ [''SKILL.md'']) = Some (File ?m49)" by simp
  have l50: "lookup ?f50 ([] @ [''SKILL.md'']) = Some (File ?m50)" by simp
  have p49: "map_of (fst (parse_frontmatter ?m49)) ''description'' = Some (replicate 49 (CHR ''x''))"
    by code_simp
  have p50: "map_of (fst (parse_frontmatter ?m50)) ''description'' = Some (replicate 50 (CHR ''x''))"
    by code_simp
  have n49: "length (replicate 49 (CHR ''x'')) = 49" by simp
  have n50: "length (replicate 50 (CHR ''x'')) = 50" by simp
  have s49: "scan_reads_text ?f49 []" by code_simp
  have s50: "scan_reads_text ?f50 []" by code_simp
  have i49: "\<not> isl (validate_skill ?f49 [])"
    using validate_skill_on_file [OF l49 surjective_pairing] s49 by simp
  have i50: "\<not> isl (validate_skill ?f50 [])"
    using validate_skill_on_file [OF l50 surjective_pairing] s50 by simp
  have v49: "validate_skill ?f49 [] = Inr (projr (validate_skill ?f49 []))"
    using i49 by simp
  have v50: "validate_skill ?f50 [] = Inr (projr (validate_skill ?f50 []))"
    using i50 by simp
  show ?thesis
    using description_length_boundary [OF l49 p49 v49] description_length_boundary [OF l50 p50 v50]
      l49 l50 p49 p50 n49 n50 i49 i50
    by blast
qed

text \<open>
  C9. Whatever the file system holds, the list that \<open>validate_skill\<close> returns never
  has the placeholder message for a file named \<open>.gitkeep\<close> in one of the three
  scanned subdirectories: the file is passed over by its name, its content is not
  read. In the witness, \<open>assets/.gitkeep\<close> contains \<open>TODO\<close>.
\<close>

theorem gitkeep_is_exempt:
  assumes "validate_skill fs skill_path = Inr errors"
    and "subdir \<in> scanned_subdirs"
  shows "placeholder_error subdir ''.gitkeep'' \<notin> set errors"
proof (cases "lookup fs (skill_path @ [''SKILL.md''])")
  case None
  then have "errors = [''SKILL.md file not found'']"
    using assms(1) by (simp add: validate_skill_missing)
  then show ?thesis by (simp add: not_found_is_no_placeholder_error)
next
  case (Some n)
  show ?thesis
  proof (cases n)
    case (Dir es)
    then show ?thesis using Some assms(1) by (simp add: validate_skill_directory)
  next
    case Binary
    then show ?thesis using Some assms(1) by (simp add: validate_skill_binary)
  next
    case (File content)
    obtain fm body where pf: "parse_frontmatter content = (fm, body)"
      by (cases "parse_frontmatter content")
    have l: "lookup fs (skill_path @ [''SKILL.md'']) = Some (File content)"
      using Some File by simp
    have e: "errors = check_required_fields fm [] @ check_body_content body []
                @ check_recommended_sections body [] @ directory_findings fs skill_path"
      using l pf assms(1) by (rule validate_skill_returns)
    let ?g = "placeholder_error subdir ''.gitkeep''"
    have "?g \<notin> set (check_required_fields fm [])"
      using required_fields_errors_hd [of ?g fm] by (auto simp: hd_placeholder_error)
    moreover have "?g \<notin> set (check_body_content body [])"
      using body_content_errors_hd [of ?g body] by (auto simp: hd_placeholder_error)
    moreover have "?g \<notin> set (check_recommended_sections body [])"
      using recommended_sections_errors_hd [of ?g body] by (auto simp: hd_placeholder_error)
    moreover have "?g \<notin> set (directory_findings fs skill_path)"
    proof
      assume "?g \<in> set (directory_findings fs skill_path)"
      then obtain subdir' name where
        "subdir' \<in> scanned_subdirs" "name \<noteq> ''.gitkeep''" "?g = placeholder_error subdir' name"
        using directory_findings_shape by blast
      then show False using placeholder_error_inject [OF assms(2)] by metis
    qed
    ultimately show ?thesis using e by simp
  qed
qed

theorem gitkeep_is_exempt_witness:
  "\<not> isl (validate_skill
            (Dir [(''SKILL.md'', File ''x''), (''assets'', Dir [(''.gitkeep'', File ''TODO'')])]) [])
   \<and> ''assets'' \<in> scanned_subdirs
   \<and> placeholder_error ''assets'' ''.gitkeep''
       \<notin> set (projr (validate_skill
            (Dir [(''SKILL.md'', File ''x''), (''assets'', Dir [(''.gitkeep'', File ''TODO'')])]) []))"
proof -
  let ?fs = "Dir [(''SKILL.md'', File ''x''), (''assets'', Dir [(''.gitkeep'', File ''TODO'')])]"
  have i: "\<not> isl (validate_skill ?fs [])" by code_simp
  then have v: "validate_skill ?fs [] = Inr (projr (validate_skill ?fs []))" by simp
  have s: "''assets'' \<in> scanned_subdirs" by (simp add: scanned_subdirs_def)
  have "placeholder_error ''assets'' ''.gitkeep'' \<notin> set (projr (validate_skill ?fs []))"
    using gitkeep_is_exempt [OF v s] .
  then show ?thesis using i s by simp
qed

section \<open>The claims about the scaffolder\<close>

text \<open>
  C2, amended. For every skill name with a character outside \<open>[A-Za-z0-9_-]\<close> that
  is an ASCII character, or more generally is not alphanumeric for \<open>str.isalnum\<close>,
  \<open>create_skill\<close> fails with the invalid-name error and leaves the file system as it
  was.
\<close>

theorem name_outside_class_refused:
  assumes "c \<in> set skill_name" and "\<not> in_name_class c"
    and "code_point c < 128 \<or> \<not> isalnum_char c"
  shows "create_skill fs skill_name output_path = (Some (invalid_name_error skill_name), fs)"
proof -
  have "\<not> isalnum_char c" using assms(2,3) ascii_outside_class_not_alnum by blast
  then have "\<not> valid_skill_name skill_name"
    using assms(1,2) outside_class_not_separator not_alnum_not_valid by blast
  then show ?thesis by (rule invalid_name_refused)
qed

theorem name_outside_class_refused_witness:
  "CHR '' '' \<in> set ''a b'' \<and> \<not> in_name_class (CHR '' '')
   \<and> (code_point (CHR '' '') < 128 \<or> \<not> isalnum_char (CHR '' ''))
   \<and> create_skill (Dir []) ''a b'' [''skills''] = (Some (invalid_name_error ''a b''), Dir [])"
proof -
  have a: "CHR '' '' \<in> set ''a b''" by simp
  have b: "\<not> in_name_class (CHR '' '')" by code_simp
  have c: "code_point (CHR '' '') < 128 \<or> \<not> isalnum_char (CHR '' '')" by code_simp
  show ?thesis using name_outside_class_refused [OF a b c] a b c by blast
qed

text \<open>
  The claim as stated fails on a letter outside ASCII: \<open>str.isalnum\<close> accepts the
  name \<open>caf\<close> followed by e with acute accent (code point \<open>0xE9\<close>), which is outside
  the class; \<open>create_skill\<close> returns normally and the skill directory is there.
\<close>

theorem accented_name_counterexample:
  "CHR 0xE9 \<in> set [CHR ''c'', CHR ''a'', CHR ''f'', CHR 0xE9]
   \<and> \<not> in_name_class (CHR 0xE9)
   \<and> fst (create_skill (Dir []) [CHR ''c'', CHR ''a'', CHR ''f'', CHR 0xE9] [''skills'']) = None
   \<and> is_dir (snd (create_skill (Dir []) [CHR ''c'', CHR ''a'', CHR ''f'', CHR 0xE9] [''skills'']))
        [''skills'', [CHR ''c'', CHR ''a'', CHR ''f'', CHR 0xE9]]"
  by code_simp

text \<open>
  C8, amended. If the name passes the check of the name and the resolved skill
  directory exists, as a file or as a directory, \<open>create_skill\<close> fails with the
  already-exists error and leaves the file system as it was. In particular, after an
  invocation that returned normally, a second one with the same name and path fails
  with that error and leaves what the first one made untouched.
\<close>

theorem existing_skill_directory_refused:
  "(valid_skill_name skill_name \<and> exists fs (output_path @ [skill_name]) \<longrightarrow>
      create_skill fs skill_name output_path
        = (Some (already_exists_error (output_path @ [skill_name])), fs))
   \<and> (create_skill fs skill_name output_path = (None, fs') \<longrightarrow>
        create_skill fs' skill_name output_path
          = (Some (already_exists_error (output_path @ [skill_name])), fs'))"
proof (intro conjI impI)
  assume "valid_skill_name skill_name \<and> exists fs (output_path @ [skill_name])"
  then show "create_skill fs skill_name output_path
        = (Some (already_exists_error (output_path @ [skill_name])), fs)"
    by (simp add: existing_target_refused)
next
  assume "create_skill fs skill_name output_path = (None, fs')"
  then have "valid_skill_name skill_name"
    and "lookup fs' (output_path @ [skill_name]) = Some (skill_tree skill_name)"
    using create_skill_returns by blast+
  then show "create_skill fs' skill_name output_path
          = (Some (already_exists_error (output_path @ [skill_name])), fs')"
    by (simp add: existing_target_refused exists_def)
qed

lemma valid_skill_name_a: "valid_skill_name ''a''"
  by code_simp

lemma create_skill_a: "create_skill (Dir []) ''a'' [] = (None, Dir [(''a'', skill_tree ''a'')])"
  by (simp add: create_skill_def valid_skill_name_a exists_def skill_tree_def)

theorem existing_skill_directory_refused_witness:
  "valid_skill_name ''a'' \<and> exists (Dir [(''a'', File ''x'')]) ([] @ [''a''])
   \<and> create_skill (Dir [(''a'', File ''x'')]) ''a'' []
       = (Some (already_exists_error ([] @ [''a''])), Dir [(''a'', File ''x'')])
   \<and> create_skill (Dir []) ''a'' [] = (None, Dir [(''a'', skill_tree ''a'')])
   \<and> create_skill (Dir [(''a'', skill_tree ''a'')]) ''a'' []
       = (Some (already_exists_error ([] @ [''a''])), Dir [(''a'', skill_tree ''a'')])"
proof -
  have e: "exists (Dir [(''a'', File ''x'')]) ([] @ [''a''])" by (simp add: exists_def)
  show ?thesis
    using existing_skill_directory_refused [of "''a''" "Dir [(''a'', File ''x'')]" "[]"]
      existing_skill_directory_refused [of "''a''" "Dir []" "[]" "Dir [(''a'', skill_tree ''a'')]"]
      valid_skill_name_a e create_skill_a
    by blast
qed

text \<open>
  The claim as stated fails for a name that does not pass the check of the name: that
  check comes first, so with the directory \<open>a b\<close> in place the error is the
  invalid-name error, not the already-exists error.
\<close>

theorem invalid_name_precedes_counterexample:
  "exists (Dir [(''a b'', Dir [])]) ([] @ [''a b''])
   \<and> create_skill (Dir [(''a b'', Dir [])]) ''a b'' []
       = (Some (invalid_name_error ''a b''), Dir [(''a b'', Dir [])])
   \<and> invalid_name_error ''a b'' \<noteq> already_exists_error ([] @ [''a b''])"
  by code_simp

section \<open>The end-to-end scenario\<close>

text \<open>
  C1, amended. For the fixed templates, \<open>validate_skill\<close> on a directory freshly
  created by \<open>create_skill\<close> with the name \<open>my-skill\<close> returns exactly four errors: the
  description and the body contain \<open>TODO\<close>, and so do \<open>scripts/example.py\<close> and
  \<open>references/example.md\<close>. None of the three missing-section errors is among them:
  the body has the headings \<open>When to Use This Skill\<close>, \<open>Workflow\<close> and \<open>Examples\<close>, which the
  search without case for the three labels finds.
\<close>

theorem scaffold_then_validate:
  assumes "create_skill fs ''my-skill'' output_path = (None, fs')"
  shows "\<exists>errors.
           validate_skill fs' (output_path @ [''my-skill'']) = Inr errors
           \<and> errors = [''Description contains TODO placeholder'',
                       ''SKILL.md body contains TODO placeholders'',
                       placeholder_error ''scripts'' ''example.py'',
                       placeholder_error ''references'' ''example.md'']
           \<and> missing_section ''When to Use'' \<notin> set errors
           \<and> missing_section ''Workflow'' \<notin> set errors
           \<and> missing_section ''Example'' \<notin> set errors"
proof -
  have "lookup fs' (output_path @ [''my-skill'']) = Some (skill_tree ''my-skill'')"
    using create_skill_returns [OF assms] by simp
  then have "validate_skill fs' (output_path @ [''my-skill''])
               = validate_skill (skill_tree ''my-skill'') []"
    by (rule validate_skill_focus)
  then show ?thesis
    using validate_skill_tree_my_skill no_missing_section_my_skill by simp
qed

theorem scaffold_then_validate_witness:
  "create_skill (Dir []) ''my-skill'' [''skills'']
     = (None, Dir [(''skills'', Dir [(''my-skill'', skill_tree ''my-skill'')])])
   \<and> (\<exists>errors.
           validate_skill (Dir [(''skills'', Dir [(''my-skill'', skill_tree ''my-skill'')])])
             ([''skills''] @ [''my-skill'']) = Inr errors
           \<and> errors = [''Description contains TODO placeholder'',
                       ''SKILL.md body contains TODO placeholders'',
                       placeholder_error ''scripts'' ''example.py'',
                       placeholder_error ''references'' ''example.md'']
           \<and> missing_section ''When to Use'' \<notin> set errors
           \<and> missing_section ''Workflow'' \<notin> set errors
           \<and> missing_section ''Example'' \<notin> set errors)"
  using scaffold_then_validate [OF create_skill_my_skill] create_skill_my_skill by blast

text \<open>
  The claim as stated fails: scaffolded under \<open>skills\<close> in an empty file system and
  validated at once, \<open>my-skill\<close> gets the four placeholder errors and none of the three
  missing-section errors.
\<close>

theorem scaffold_has_its_sections_counterexample:
  "fst (create_skill (Dir []) ''my-skill'' [''skills'']) = None
   \<and> validate_skill (snd (create_skill (Dir []) ''my-skill'' [''skills'']))
         [''skills'', ''my-skill'']
       = Inr [''Description contains TODO placeholder'',
              ''SKILL.md body contains TODO placeholders'',
              placeholder_error ''scripts'' ''example.py'',
              placeholder_error ''references'' ''example.md'']
   \<and> missing_section ''When to Use''
       \<notin> set [''Description contains TODO placeholder'',
                ''SKILL.md body contains TODO placeholders'',
                placeholder_error ''scripts'' ''example.py'',
                placeholder_error ''references'' ''example.md'']
   \<and> missing_section ''Workflow''
       \<notin> set [''Description contains TODO placeholder'',
                ''SKILL.md body contains TODO placeholders'',
                placeholder_error ''scripts'' ''example.py'',
                placeholder_error ''references'' ''example.md'']
   \<and> missing_section ''Example''
       \<notin> set [''Description contains TODO placeholder'',
                ''SKILL.md body contains TODO placeholders'',
                placeholder_error ''scripts'' ''example.py'',
                placeholder_error ''references'' ''example.md'']"
proof -
  have "lookup (Dir [(''skills'', Dir [(''my-skill'', skill_tree ''my-skill'')])])
          [''skills'', ''my-skill''] = Some (skill_tree ''my-skill'')"
    by simp
  then have "validate_skill (Dir [(''skills'', Dir [(''my-skill'', skill_tree ''my-skill'')])])
               [''skills'', ''my-skill'']
             = validate_skill (skill_tree ''my-skill'') []"
    by (rule validate_skill_focus)
  then show ?thesis
    using validate_skill_tree_my_skill no_missing_section_my_skill
    by (simp add: create_skill_my_skill)
qed

section \<open>The round trip\<close>

text \<open>
  C4, amended. For every plain mapping (distinct keys; keys without separator,
  newline or white space at the ends; values without newline, or white space or quotes
  at the ends; no \<open>---\<close> inside a key or a value), serialising it as one \<open>key: value\<close>
  line for each entry between two delimiter lines and applying \<open>parse_frontmatter\<close>
  yields exactly the original mapping, in its order, and the body after the second
  delimiter.
\<close>

theorem plain_round_trip:
  assumes "plain_dict d"
  shows "parse_frontmatter (serialize d) = (d, [nl])"
  using parse_frontmatter_delimited [OF serialize_parts block_no_delimiter [OF assms]]
    parse_block_entries [OF assms]
  by simp

theorem plain_round_trip_witness:
  "plain_dict [(''name'', ''my-skill''), (''description'', ''a: b'')]
   \<and> parse_frontmatter (serialize [(''name'', ''my-skill''), (''description'', ''a: b'')])
       = ([(''name'', ''my-skill''), (''description'', ''a: b'')], [nl])"
proof -
  have p: "plain_dict [(''name'', ''my-skill''), (''description'', ''a: b'')]" by code_simp
  show ?thesis using plain_round_trip [OF p] p by simp
qed

text \<open>
  The claim as stated fails, although no key or value below has a delimiter line: a
  separator in the key moves to the value; white space and quotes at the ends of a
  value are lost; the second line of a value is dropped; a \<open>---\<close> inside a value ends the
  block.
\<close>

theorem round_trip_counterexample:
  "\<not> has_delimiter_line ''a:b'' \<and> \<not> has_delimiter_line ''c''
   \<and> fst (parse_frontmatter (serialize [(''a:b'', ''c'')])) = [(''a'', ''b: c'')]
   \<and> [(''a'', ''b: c'')] \<noteq> [(''a:b'', ''c'')]
   \<and> fst (parse_frontmatter (serialize [(''k'', '' v'')])) = [(''k'', ''v'')]
   \<and> fst (parse_frontmatter (serialize [(''k'', [dquote] @ ''v'' @ [dquote])]))
       = [(''k'', ''v'')]
   \<and> \<not> has_delimiter_line (''a'' @ [nl] @ ''b'')
   \<and> fst (parse_frontmatter (serialize [(''k'', ''a'' @ [nl] @ ''b'')])) = [(''k'', ''a'')]
   \<and> \<not> has_delimiter_line ''a---b''
   \<and> fst (parse_frontmatter (serialize [(''k'', ''a---b'')])) = [(''k'', ''a'')]"
  by code_simp

end
